theory Spec2Isabelle
  imports Main "HOL-Library.Code_Target_Nat"
begin

section \<open>JavaScript strings\<close>

text \<open>
  A JavaScript string is a sequence of UTF-16 code units; \<open>length\<close>, \<open>slice\<close>,
  \<open>lastIndexOf\<close> and the regular expressions of the widget (none has the \<open>u\<close> flag
  outside \<open>cleanLink\<close>, whose classes are all in the basic plane) count code units.
  A code unit is modelled as a natural number; \<open>js\<close> writes an ASCII literal.
\<close>

type_synonym jsstring = "nat list"

definition js :: "string \<Rightarrow> jsstring" where
  "js cs = map of_char cs"

text \<open>
  Character classes are lists of inclusive ranges. \<open>space_ranges\<close> is what \<open>\s\<close> matches
  and what \<open>String.prototype.trim\<close> strips (WhiteSpace and LineTerminator of ECMAScript);
  \<open>word_ranges\<close> is \<open>\w\<close>.
\<close>

definition in_ranges :: "nat \<Rightarrow> (nat \<times> nat) list \<Rightarrow> bool" where
  "in_ranges c rs = list_ex (\<lambda>(l, h). l \<le> c \<and> c \<le> h) rs"

definition space_ranges :: "(nat \<times> nat) list" where
  "space_ranges = [(0x09, 0x0D), (0x20, 0x20), (0xA0, 0xA0), (0x1680, 0x1680),
     (0x2000, 0x200A), (0x2028, 0x2029), (0x202F, 0x202F), (0x205F, 0x205F),
     (0x3000, 0x3000), (0xFEFF, 0xFEFF)]"

definition is_space :: "nat \<Rightarrow> bool" where
  "is_space c = in_ranges c space_ranges"

definition is_line_terminator :: "nat \<Rightarrow> bool" where
  "is_line_terminator c = (c = 0x0A \<or> c = 0x0D \<or> c = 0x2028 \<or> c = 0x2029)"

definition word_ranges :: "(nat \<times> nat) list" where
  "word_ranges = [(0x30, 0x39), (0x41, 0x5A), (0x5F, 0x5F), (0x61, 0x7A)]"

text \<open>
  \<open>sub xs a b\<close> is the substring from index \<open>a\<close> up to \<open>b\<close>. \<open>slice\<close> is
  \<open>String.prototype.slice\<close>: a negative index counts from the end, both are clamped to the
  string, and an end before the start gives the empty string. \<open>lastIndexOf\<close> is the greatest
  index where the pattern occurs, or \<open>-1\<close>.
\<close>

definition sub :: "'a list \<Rightarrow> nat \<Rightarrow> nat \<Rightarrow> 'a list" where
  "sub xs a b = take (b - a) (drop a xs)"

definition slice :: "'a list \<Rightarrow> int \<Rightarrow> int \<Rightarrow> 'a list" where
  "slice xs start fin =
     (let len = int (length xs);
          from = (if start < 0 then max (len + start) 0 else min start len);
          to = (if fin < 0 then max (len + fin) 0 else min fin len)
      in sub xs (nat from) (nat (max from to)))"

definition lastIndexOf :: "jsstring \<Rightarrow> jsstring \<Rightarrow> int" where
  "lastIndexOf s pat =
     (case filter (\<lambda>k. take (length pat) (drop k s) = pat) (rev [0 ..< Suc (length s)]) of
        [] \<Rightarrow> - 1
      | k # _ \<Rightarrow> int k)"

section \<open>Regular expressions\<close>

text \<open>
  The patterns of \<open>chatbot.util.js\<close> are written as terms of \<open>regex\<close> and run by a
  backtracking matcher. \<open>m ic ml s r i caps\<close> lists, in the order in which a backtracking
  engine tries them, the states (end index and captures) in which \<open>r\<close> can match \<open>s\<close>
  from index \<open>i\<close>; the head of the list is the match JavaScript reports.
  \<open>ic\<close> and \<open>ml\<close> are the flags \<open>i\<close> and \<open>m\<close>.

  \<^item> \<open>Cls neg rs\<close> is a character class (negated when \<open>neg\<close>); \<open>.\<close> is the negated class
    of the line terminators.
  \<^item> \<open>Rep lo hi greedy r\<close> is \<open>r{lo,hi}\<close> (\<open>hi = None\<close>: unbounded), lazy when not
    \<open>greedy\<close>. As in ECMAScript's RepeatMatcher an iteration that consumes nothing ends the
    loop once the minimum is reached, so every further iteration moves the index forward and
    \<open>lo + (length s - i) + 1\<close> levels of \<open>rep_fuel\<close> are never exhausted.
  \<^item> \<open>Grp k r\<close> is the k-th capturing group, \<open>Backref k\<close> is \<open>\k\<close>, \<open>Bol\<close>, \<open>Eol\<close>
    and \<open>WordB\<close> are \<open>^\<close>, \<open>$\<close> and \<open>\b\<close>, \<open>Look True r\<close> is \<open>(?=r)\<close> and
    \<open>Look False r\<close> is \<open>(?!r)\<close>.
  \<^item> With the \<open>i\<close> flag and no \<open>u\<close> flag ECMAScript compares canonicalised code units; a
    unit outside ASCII never canonicalises to an ASCII one, and the patterns that carry the
    flag name only ASCII characters and white space, so \<open>canon\<close> folds ASCII letters only.
  No pattern of the widget has a capturing group under a quantifier, so the reset of
  captures at each iteration is not modelled.
\<close>

type_synonym captures = "nat \<rightharpoonup> nat \<times> nat"
type_synonym mstate = "nat \<times> captures"

datatype regex =
    Chr nat
  | Cls bool "(nat \<times> nat) list"
  | Eps
  | Seq regex regex
  | Alt regex regex
  | Rep nat "nat option" bool regex
  | Grp nat regex
  | Backref nat
  | Bol
  | Eol
  | WordB
  | Look bool regex

record js_regexp =
  source :: regex
  global :: bool
  ignoreCase :: bool
  multiline :: bool

definition canon :: "bool \<Rightarrow> nat \<Rightarrow> nat" where
  "canon ic c = (if ic \<and> 0x61 \<le> c \<and> c \<le> 0x7A then c - 0x20 else c)"

definition class_has :: "bool \<Rightarrow> (nat \<times> nat) list \<Rightarrow> nat \<Rightarrow> bool" where
  "class_has ic rs c =
     (if ic then (let u = canon True c
                  in in_ranges u rs \<or> (0x41 \<le> u \<and> u \<le> 0x5A \<and> in_ranges (u + 0x20) rs))
      else in_ranges c rs)"

primrec rep_fuel ::
  "nat \<Rightarrow> (nat \<Rightarrow> captures \<Rightarrow> mstate list) \<Rightarrow> nat \<Rightarrow> nat option \<Rightarrow> bool \<Rightarrow>
   nat \<Rightarrow> captures \<Rightarrow> mstate list" where
  "rep_fuel 0 step lo hi greedy i caps = []"
| "rep_fuel (Suc n) step lo hi greedy i caps =
     (if hi = Some 0 then [(i, caps)]
      else let again = concat (map (\<lambda>(j, caps').
                 if lo = 0 \<and> j = i then []
                 else rep_fuel n step (lo - 1) (map_option (\<lambda>h. h - 1) hi) greedy j caps')
               (step i caps))
           in if lo \<noteq> 0 then again
              else if greedy then again @ [(i, caps)]
              else (i, caps) # again)"

primrec m :: "bool \<Rightarrow> bool \<Rightarrow> jsstring \<Rightarrow> regex \<Rightarrow> nat \<Rightarrow> captures \<Rightarrow> mstate list" where
  "m ic ml s (Chr a) i caps =
     (if i < length s \<and> canon ic (s ! i) = canon ic a then [(Suc i, caps)] else [])"
| "m ic ml s (Cls neg rs) i caps =
     (if i < length s \<and> (class_has ic rs (s ! i) \<noteq> neg) then [(Suc i, caps)] else [])"
| "m ic ml s Eps i caps = [(i, caps)]"
| "m ic ml s (Seq a b) i caps =
     concat (map (\<lambda>(j, caps'). m ic ml s b j caps') (m ic ml s a i caps))"
| "m ic ml s (Alt a b) i caps = m ic ml s a i caps @ m ic ml s b i caps"
| "m ic ml s (Rep lo hi greedy r) i caps =
     rep_fuel (Suc (lo + (length s - i))) (m ic ml s r) lo hi greedy i caps"
| "m ic ml s (Grp k r) i caps =
     map (\<lambda>(j, caps'). (j, caps'(k \<mapsto> (i, j)))) (m ic ml s r i caps)"
| "m ic ml s (Backref k) i caps =
     (case caps k of
        None \<Rightarrow> [(i, caps)]
      | Some (a, b) \<Rightarrow>
          if i + (b - a) \<le> length s \<and> map (canon ic) (sub s i (i + (b - a))) = map (canon ic) (sub s a b)
          then [(i + (b - a), caps)] else [])"
| "m ic ml s Bol i caps =
     (if i = 0 \<or> (ml \<and> is_line_terminator (s ! (i - 1))) then [(i, caps)] else [])"
| "m ic ml s Eol i caps =
     (if i = length s \<or> (ml \<and> i < length s \<and> is_line_terminator (s ! i)) then [(i, caps)] else [])"
| "m ic ml s WordB i caps =
     (let a = (0 < i \<and> in_ranges (s ! (i - 1)) word_ranges);
          b = (i < length s \<and> in_ranges (s ! i) word_ranges)
      in if a \<noteq> b then [(i, caps)] else [])"
| "m ic ml s (Look pos r) i caps =
     (case m ic ml s r i caps of
        [] \<Rightarrow> (if pos then [] else [(i, caps)])
      | (j, caps') # _ \<Rightarrow> (if pos then [(i, caps')] else []))"

text \<open>
  \<open>exec_at\<close> is one match attempt at a fixed index; \<open>find_from\<close> is the search of
  \<open>RegExp.prototype.exec\<close> from \<open>lastIndex\<close> on; \<open>all_matches\<close> is the loop of a
  global \<open>replace\<close> (after an empty match the index advances by one); \<open>split_loop\<close> and
  \<open>js_split\<close> are \<open>String.prototype.split\<close> with a regular expression without capturing
  groups and without a limit.
\<close>

definition exec_at :: "js_regexp \<Rightarrow> jsstring \<Rightarrow> nat \<Rightarrow> mstate option" where
  "exec_at re s i =
     (case m (ignoreCase re) (multiline re) s (source re) i Map.empty of
        [] \<Rightarrow> None
      | y # _ \<Rightarrow> Some y)"

function find_from :: "js_regexp \<Rightarrow> jsstring \<Rightarrow> nat \<Rightarrow> (nat \<times> mstate) option" where
  "find_from re s i =
     (if length s < i then None
      else (case exec_at re s i of
              None \<Rightarrow> find_from re s (Suc i)
            | Some y \<Rightarrow> Some (i, y)))"
  by pat_completeness auto
termination
  by (relation "measure (\<lambda>(re, s, i). Suc (length s) - i)") auto

declare find_from.simps [simp del]

lemma rep_fuel_mono:
  assumes "\<And>i caps e c. (e, c) \<in> set (step i caps) \<Longrightarrow> i \<le> e"
  shows "(e, c) \<in> set (rep_fuel n step lo hi g i caps) \<Longrightarrow> i \<le> e"
proof (induction n arbitrary: lo hi i caps)
  case 0
  then show ?case by simp
next
  case (Suc n)
  show ?case
  proof (cases "hi = Some 0")
    case True
    with Suc.prems show ?thesis by simp
  next
    case False
    have again: "i \<le> e" if "(j, c') \<in> set (step i caps)"
      and "(e, c) \<in> set (rep_fuel n step (lo - 1) (map_option (\<lambda>h. h - 1) hi) g j c')" for j c'
      using assms[OF that(1)] Suc.IH[OF that(2)] by simp
    from Suc.prems False show ?thesis
      by (auto simp: Let_def split: if_splits dest: again)
  qed
qed

lemma m_mono: "(e, c) \<in> set (m ic ml s r i caps) \<Longrightarrow> i \<le> e"
proof (induction r arbitrary: i caps e c)
  case (Seq a b)
  then show ?case by (fastforce dest: Seq.IH)
next
  case (Rep lo hi g r)
  have "(e, c) \<in> set (rep_fuel (Suc (lo + (length s - i))) (m ic ml s r) lo hi g i caps)"
    using Rep.prems by simp
  then show ?case
    by (rule rep_fuel_mono[rotated]) (rule Rep.IH)
next
  case (Look pos r)
  then show ?case by (auto split: list.splits if_splits)
qed (auto split: if_splits option.splits simp: Let_def)

lemma exec_at_mono: "exec_at re s i = Some (e, c) \<Longrightarrow> i \<le> e"
proof -
  assume "exec_at re s i = Some (e, c)"
  then have "(e, c) \<in> set (m (ignoreCase re) (multiline re) s (source re) i Map.empty)"
    by (auto simp: exec_at_def split: list.splits)
  then show ?thesis by (rule m_mono)
qed

lemma find_from_bounds: "find_from re s i = Some (q, e, c) \<Longrightarrow> i \<le> q \<and> q \<le> length s \<and> q \<le> e"
proof (induction re s i rule: find_from.induct)
  case (1 re s i)
  then show ?case
    by (subst (asm) (2) find_from.simps) (auto split: if_splits option.splits dest: exec_at_mono)
qed

function all_matches :: "js_regexp \<Rightarrow> jsstring \<Rightarrow> nat \<Rightarrow> (nat \<times> mstate) list" where
  "all_matches re s i =
     (case find_from re s i of
        None \<Rightarrow> []
      | Some (q, e, caps) \<Rightarrow> (q, e, caps) # all_matches re s (if e = q then Suc e else e))"
  by pat_completeness auto
termination
  by (relation "measure (\<lambda>(re, s, i). Suc (length s) - i)")
     (auto dest!: find_from_bounds)

declare all_matches.simps [simp del]

function split_loop :: "js_regexp \<Rightarrow> jsstring \<Rightarrow> nat \<Rightarrow> nat \<Rightarrow> jsstring list" where
  "split_loop re s p q =
     (if q < length s then
        (case exec_at re s q of
           None \<Rightarrow> split_loop re s p (Suc q)
         | Some (e, caps) \<Rightarrow>
             (let e' = min e (length s)
              in if e' = p then split_loop re s p (Suc q)
                 else sub s p q # split_loop re s e' e'))
      else [drop p s])"
  by pat_completeness auto
termination
  by (relation "measures [\<lambda>(re, s, p, q). length s - q, \<lambda>(re, s, p, q). if p = q then 0 else 1]")
     (auto dest!: exec_at_mono)

declare split_loop.simps [simp del]

definition js_split :: "js_regexp \<Rightarrow> jsstring \<Rightarrow> jsstring list" where
  "js_split re s =
     (if s = [] then (case exec_at re s 0 of None \<Rightarrow> [s] | Some _ \<Rightarrow> [])
      else split_loop re s 0 0)"

text \<open>The pattern \<open>/\n{2}(?=[A-Z])/\<close> of \<open>splitIntoSubblocks\<close>.\<close>

definition para_re :: js_regexp where
  "para_re = \<lparr> source = Seq (Rep 2 (Some 2) True (Chr 0x0A)) (Look True (Cls False [(0x41, 0x5A)])),
               global = False, ignoreCase = False, multiline = False \<rparr>"

section \<open>Strings whose characters carry their origin\<close>

text \<open>
  The string functions of the formatter are written once for any character type \<open>'a\<close> that
  has a code unit (\<open>code_of\<close>) and into which a literal code unit can be written
  (\<open>emit\<close>). With \<open>plain\<close> they are the functions of the source on JavaScript strings;
  another alphabet lets each character remember whether it came from the input.
\<close>

record 'a alphabet =
  code_of :: "'a \<Rightarrow> nat"
  emit :: "nat \<Rightarrow> 'a"

definition plain :: "nat alphabet" where
  "plain = \<lparr> code_of = (\<lambda>c. c), emit = (\<lambda>c. c) \<rparr>"

definition trim_on :: "'a alphabet \<Rightarrow> 'a list \<Rightarrow> 'a list" where
  "trim_on A xs =
     rev (dropWhile (\<lambda>x. is_space (code_of A x)) (rev (dropWhile (\<lambda>x. is_space (code_of A x)) xs)))"

section \<open>The block splitter\<close>

text \<open>
  \<open>splitIntoSubblocks(text, maxLen)\<close> of \<open>chatbot.util.js\<close>. \<open>chunk_loop\<close> is its
  \<open>while (cursor < text.length)\<close> loop, with \<open>parts\<close> the array built so far. The loop
  need not end (with \<open>maxLen = 0\<close> the cursor never moves), so it is a partial function:
  \<open>None\<close> is a run that does not return. \<open>maxLen\<close> is an integer; the renderer passes
  500.
\<close>

partial_function (option) chunk_loop ::
  "jsstring \<Rightarrow> int \<Rightarrow> int \<Rightarrow> jsstring list \<Rightarrow> jsstring list option" where
  "chunk_loop text maxLen cursor parts =
     (if cursor < int (length text) then
        (let next = min (int (length text)) (cursor + maxLen);
             snippet = slice text cursor next;
             sep = max (lastIndexOf snippet [0x0A]) (lastIndexOf snippet (js ''. ''))
         in if sep > - 1
            then chunk_loop text maxLen (cursor + sep + 1) (parts @ [slice text cursor (cursor + sep)])
            else chunk_loop text maxLen next (parts @ [snippet]))
      else Some parts)"

declare chunk_loop.simps [code]

definition splitIntoSubblocks :: "jsstring \<Rightarrow> int \<Rightarrow> jsstring list option" where
  "splitIntoSubblocks text maxLen =
     (let parts = js_split para_re text
      in map_option (filter (\<lambda>p. length (trim_on plain p) \<noteq> 0))
           (if length parts = 1 \<and> int (length text) > maxLen
            then chunk_loop text maxLen 0 []
            else Some parts))"

lemma sub_length: "b \<le> length xs \<Longrightarrow> length (sub xs a b) = b - a"
  by (simp add: sub_def)

lemma sub_append_drop: "a \<le> b \<Longrightarrow> sub xs a b @ drop b xs = drop a xs"
proof -
  assume "a \<le> b"
  then have "drop b xs = drop (b - a) (drop a xs)" by simp
  then show ?thesis unfolding sub_def by (metis append_take_drop_id)
qed

lemma slice_nonneg:
  "0 \<le> a \<Longrightarrow> a \<le> b \<Longrightarrow> b \<le> int (length xs) \<Longrightarrow> slice xs a b = sub xs (nat a) (nat b)"
  by (simp add: slice_def Let_def max_def min_def)

lemma lastIndexOf_cases:
  "lastIndexOf s pat = - 1 \<or>
   (\<exists>k. lastIndexOf s pat = int k \<and> k \<le> length s \<and> take (length pat) (drop k s) = pat)"
proof (cases "filter (\<lambda>k. take (length pat) (drop k s) = pat) (rev [0 ..< Suc (length s)])")
  case Nil
  then show ?thesis by (simp add: lastIndexOf_def del: upt_Suc)
next
  case (Cons k ks)
  then have "k \<in> set (filter (\<lambda>k. take (length pat) (drop k s) = pat) (rev [0 ..< Suc (length s)]))"
    by simp
  then have "k \<le> length s \<and> take (length pat) (drop k s) = pat"
    by (auto simp del: upt_Suc)
  with Cons show ?thesis by (simp add: lastIndexOf_def del: upt_Suc)
qed

lemma lastIndexOf_hit:
  assumes "pat \<noteq> []" and "- 1 < lastIndexOf s pat"
  shows "\<exists>k. lastIndexOf s pat = int k \<and> k < length s \<and> s ! k = hd pat"
proof -
  from lastIndexOf_cases[of s pat] assms(2) obtain k where
    k: "lastIndexOf s pat = int k" "k \<le> length s" "take (length pat) (drop k s) = pat"
    by auto
  from assms(1) obtain c cs where pat: "pat = c # cs" by (cases pat) auto
  have "drop k s \<noteq> []" using k(3) pat by auto
  then have lt: "k < length s" by simp
  then have "drop k s = s ! k # drop (Suc k) s" by (simp add: Cons_nth_drop_Suc)
  with k(3) pat have "s ! k = c" by simp
  with k(1) lt pat show ?thesis by simp
qed

lemma chunk_loop_total:
  assumes "1 \<le> maxLen"
  shows "0 \<le> cursor \<Longrightarrow> cursor \<le> int (length text) \<Longrightarrow>
    \<exists>ps. chunk_loop text maxLen cursor parts = Some (parts @ map fst ps) \<and>
         concat (map (\<lambda>(b, sep). b @ sep) ps) = drop (nat cursor) text \<and>
         (\<forall>(b, sep) \<in> set ps. int (length b) \<le> maxLen \<and> (sep = [] \<or> sep = [0x0A] \<or> sep = [0x2E]))"
proof (induction "length text - nat cursor" arbitrary: cursor parts rule: less_induct)
  case less
  show ?case
  proof (cases "cursor < int (length text)")
    case False
    with less.prems have "cursor = int (length text)" by simp
    then have "chunk_loop text maxLen cursor parts = Some parts"
      by (subst chunk_loop.simps) simp
    with \<open>cursor = int (length text)\<close> show ?thesis
      by (intro exI[of _ "[]"]) simp
  next
    case True
    define nxt where "nxt = min (int (length text)) (cursor + maxLen)"
    define snippet where "snippet = slice text cursor nxt"
    define sep where "sep = max (lastIndexOf snippet [0x0A]) (lastIndexOf snippet (js ''. ''))"
    have nxt: "cursor < nxt" "nxt \<le> int (length text)" "nxt \<le> cursor + maxLen"
      using True assms by (auto simp: nxt_def)
    have snip: "snippet = sub text (nat cursor) (nat nxt)"
      unfolding snippet_def using less.prems nxt by (intro slice_nonneg) auto
    have snip_len: "int (length snippet) = nxt - cursor"
      unfolding snip using nxt less.prems by (simp add: sub_length)
    have unfold: "chunk_loop text maxLen cursor parts =
        (if sep > - 1
         then chunk_loop text maxLen (cursor + sep + 1) (parts @ [slice text cursor (cursor + sep)])
         else chunk_loop text maxLen nxt (parts @ [snippet]))"
      by (subst chunk_loop.simps) (simp add: True Let_def nxt_def snippet_def sep_def)
    show ?thesis
    proof (cases "sep > - 1")
      case False
      have "length text - nat nxt < length text - nat cursor"
        using nxt less.prems by linarith
      from less.hyps[OF this, of "parts @ [snippet]"] nxt less.prems obtain ps where
        ps: "chunk_loop text maxLen nxt ((parts @ [snippet])) = Some ((parts @ [snippet]) @ map fst ps)"
          "concat (map (\<lambda>(b, sep). b @ sep) ps) = drop (nat nxt) text"
          "\<forall>(b, sep) \<in> set ps. int (length b) \<le> maxLen \<and> (sep = [] \<or> sep = [0x0A] \<or> sep = [0x2E])"
        by auto
      have "snippet @ drop (nat nxt) text = drop (nat cursor) text"
        unfolding snip using nxt by (intro sub_append_drop) simp
      with ps unfold False snip_len nxt show ?thesis
        by (intro exI[of _ "(snippet, []) # ps"]) simp
    next
      case sep_pos: True
      have "\<exists>k. sep = int k \<and> k < length snippet \<and> (snippet ! k = 0x0A \<or> snippet ! k = 0x2E)"
      proof (cases "lastIndexOf snippet (js ''. '') \<le> lastIndexOf snippet [0x0A]")
        case True
        then have "sep = lastIndexOf snippet [0x0A]" by (simp add: sep_def)
        with sep_pos lastIndexOf_hit[of "[0x0A]" snippet] show ?thesis by auto
      next
        case False
        then have "sep = lastIndexOf snippet (js ''. '')" by (simp add: sep_def)
        with sep_pos lastIndexOf_hit[of "js ''. ''" snippet] show ?thesis
          by (auto simp: js_def)
      qed
      then obtain k where k: "sep = int k" "k < length snippet"
        "snippet ! k = 0x0A \<or> snippet ! k = 0x2E" by blast
      define c' where "c' = cursor + sep + 1"
      have c': "cursor < c'" "c' \<le> nxt" using k snip_len by (auto simp: c'_def)
      have idx: "nat cursor + k < length text" using k snip_len nxt less.prems by linarith
      have "length text - nat c' < length text - nat cursor"
        using c' nxt less.prems by linarith
      from less.hyps[OF this, of "parts @ [slice text cursor (cursor + sep)]"] c' nxt less.prems
      obtain ps where
        ps: "chunk_loop text maxLen c' (parts @ [slice text cursor (cursor + sep)]) =
               Some ((parts @ [slice text cursor (cursor + sep)]) @ map fst ps)"
          "concat (map (\<lambda>(b, sep). b @ sep) ps) = drop (nat c') text"
          "\<forall>(b, sep) \<in> set ps. int (length b) \<le> maxLen \<and> (sep = [] \<or> sep = [0x0A] \<or> sep = [0x2E])"
        by auto
      have blk: "slice text cursor (cursor + sep) = sub text (nat cursor) (nat cursor + k)"
        using slice_nonneg[of cursor "cursor + sep" "text"] less.prems k idx
        by (simp add: nat_add_distrib)
      have blk_len: "length (sub text (nat cursor) (nat cursor + k)) = k"
        using idx by (subst sub_length) auto
      have "snippet ! k = text ! (nat cursor + k)"
        unfolding snip sub_def using k(2) idx snip by (simp add: sub_def)
      with k have ch: "text ! (nat cursor + k) = 0x0A \<or> text ! (nat cursor + k) = 0x2E" by simp
      have "nat c' = Suc (nat cursor + k)" using k less.prems by (simp add: c'_def)
      then have "drop (nat cursor + k) text = text ! (nat cursor + k) # drop (nat c') text"
        using idx by (simp add: Cons_nth_drop_Suc)
      moreover have "sub text (nat cursor) (nat cursor + k) @ drop (nat cursor + k) text = drop (nat cursor) text"
        by (intro sub_append_drop) simp
      ultimately have rec: "sub text (nat cursor) (nat cursor + k) @ [text ! (nat cursor + k)] @ drop (nat c') text
          = drop (nat cursor) text" by simp
      have "int k \<le> maxLen" using k snip_len nxt by linarith
      with ps unfold sep_pos blk blk_len rec ch show ?thesis
        by (intro exI[of _ "(sub text (nat cursor) (nat cursor + k), [text ! (nat cursor + k)]) # ps"])
           (auto simp: c'_def)
    qed
  qed
qed

lemma slice_empty_when: "fin \<le> start \<Longrightarrow> 0 \<le> fin \<Longrightarrow> slice xs start fin = []"
  by (simp add: slice_def Let_def sub_def max_def min_def)

lemma lastIndexOf_Nil: "pat \<noteq> [] \<Longrightarrow> lastIndexOf [] pat = - 1"
  by (cases pat) (simp_all add: lastIndexOf_def)

lemma lastIndexOf_upper: "pat \<noteq> [] \<Longrightarrow> lastIndexOf s pat < int (length s)"
  using lastIndexOf_hit[of pat s] by (cases "- 1 < lastIndexOf s pat") auto

lemma slice_length_le:
  "0 \<le> start \<Longrightarrow> fin < 0 \<Longrightarrow> int (length (slice xs start fin)) \<le> max 0 (int (length xs) + fin - start)"
  by (auto simp: slice_def Let_def sub_def max_def min_def)

lemma slice_neg_empty: "start < 0 \<Longrightarrow> fin \<le> start \<Longrightarrow> slice xs start fin = []"
  by (auto simp: slice_def Let_def sub_def max_def min_def)

lemma chunk_loop_diverges_aux:
  assumes "chunk_loop text maxLen cursor parts = Some r"
  shows "\<not> (maxLen \<le> 0 \<and> cursor < int (length text))"
proof (rule chunk_loop.raw_induct[where P = "\<lambda>t m c p r. \<not> (m \<le> 0 \<and> c < int (length t))", OF _ assms])
  fix f :: "jsstring \<Rightarrow> int \<Rightarrow> int \<Rightarrow> jsstring list \<Rightarrow> jsstring list option"
  fix t :: jsstring and m c :: int and p r :: "jsstring list"
  assume IH: "\<And>t m c p r. f t m c p = Some r \<Longrightarrow> \<not> (m \<le> 0 \<and> c < int (length t))"
  assume body: "(if c < int (length t)
      then let next = min (int (length t)) (c + m);
               snippet = slice t c next;
               sep = max (lastIndexOf snippet [0x0A]) (lastIndexOf snippet (js ''. ''))
           in if - 1 < sep
              then f t m (c + sep + 1) (p @ [slice t c (c + sep)])
              else f t m next (p @ [snippet])
      else Some p) = Some r"
  show "\<not> (m \<le> 0 \<and> c < int (length t))"
  proof
    assume pre: "m \<le> 0 \<and> c < int (length t)"
    define nxt where "nxt = min (int (length t)) (c + m)"
    define snippet where "snippet = slice t c nxt"
    define sep where "sep = max (lastIndexOf snippet [0x0A]) (lastIndexOf snippet (js ''. ''))"
    have nxt: "nxt \<le> c" "nxt < int (length t)" using pre by (auto simp: nxt_def)
    have sep_lt: "sep < int (length snippet)"
      using lastIndexOf_upper[of "[0x0A]" snippet] lastIndexOf_upper[of "js ''. ''" snippet]
      by (auto simp: sep_def js_def)
    have step: "(if sep > - 1
           then f t m (c + sep + 1) (p @ [slice t c (c + sep)])
           else f t m nxt (p @ [snippet])) = Some r"
      using body pre unfolding Let_def nxt_def snippet_def sep_def by (simp only: if_True)
    show False
    proof (cases "sep > - 1")
      case False
      with step have "f t m nxt (p @ [snippet]) = Some r" by simp
      from IH[OF this] pre nxt show False by simp
    next
      case True
      with step have call: "f t m (c + sep + 1) (p @ [slice t c (c + sep)]) = Some r"
        by simp
      have "snippet \<noteq> []" using True sep_lt by auto
      have "0 \<le> c \<and> nxt < 0"
      proof (rule ccontr)
        assume "\<not> (0 \<le> c \<and> nxt < 0)"
        then have "snippet = []"
          unfolding snippet_def using nxt slice_empty_when[of nxt c t] slice_neg_empty[of c nxt t]
          by (cases "c < 0") auto
        with \<open>snippet \<noteq> []\<close> show False by simp
      qed
      then have "int (length snippet) \<le> max 0 (int (length t) + nxt - c)"
        unfolding snippet_def by (intro slice_length_le) auto
      with sep_lt True \<open>0 \<le> c \<and> nxt < 0\<close> have "c + sep + 1 < int (length t)" by auto
      with IH[OF call] pre show False by simp
    qed
  qed
qed

lemma chunk_loop_diverges:
  "maxLen \<le> 0 \<Longrightarrow> text \<noteq> [] \<Longrightarrow> chunk_loop text maxLen 0 parts = None"
  using chunk_loop_diverges_aux[of "text" maxLen 0 parts] by (cases "chunk_loop text maxLen 0 parts") auto

lemma exec_at_para_re:
  "exec_at para_re s q = Some (e, caps) \<Longrightarrow>
     e = q + 2 \<and> q + 2 < length s \<and> s ! q = 0x0A \<and> s ! (Suc q) = 0x0A"
  by (auto simp: exec_at_def para_re_def canon_def Let_def split: if_splits list.splits)

lemma sub_two: "Suc q < length s \<Longrightarrow> sub s q (q + 2) = [s ! q, s ! Suc q]"
proof -
  assume a: "Suc q < length s"
  then have "drop q s = s ! q # s ! Suc q # drop (Suc (Suc q)) s"
    by (metis Cons_nth_drop_Suc Suc_lessD)
  then show ?thesis by (simp add: sub_def)
qed

lemma split_loop_para:
  "p \<le> q \<Longrightarrow> q \<le> length s \<Longrightarrow>
   \<exists>ps. split_loop para_re s p q = map fst ps \<and>
        concat (map (\<lambda>(b, sep). b @ sep) ps) = drop p s \<and>
        (\<forall>(b, sep) \<in> set ps. sep = [] \<or> sep = [0x0A, 0x0A])"
proof (induction "length s - q" arbitrary: p q rule: less_induct)
  case less
  show ?case
  proof (cases "q < length s")
    case False
    then have "split_loop para_re s p q = [drop p s]"
      by (subst split_loop.simps) simp
    then show ?thesis by (intro exI[of _ "[(drop p s, [])]"]) simp
  next
    case True
    show ?thesis
    proof (cases "exec_at para_re s q")
      case None
      then have eq: "split_loop para_re s p q = split_loop para_re s p (Suc q)"
        using True by (subst split_loop.simps) simp
      have "length s - Suc q < length s - q" using True by simp
      from less.hyps[OF this, of p] less.prems True eq show ?thesis by simp
    next
      case (Some y)
      obtain e caps where y: "y = (e, caps)" by (cases y)
      from exec_at_para_re[OF Some[unfolded y]] have
        e: "e = q + 2" "q + 2 < length s" "s ! q = 0x0A" "s ! Suc q = 0x0A" by auto
      have eq: "split_loop para_re s p q = sub s p q # split_loop para_re s (q + 2) (q + 2)"
        using True Some y e less.prems by (subst split_loop.simps) (simp add: Let_def min_def)
      have "length s - (q + 2) < length s - q" using True by simp
      from less.hyps[OF this, of "q + 2"] e obtain ps where
        ps: "split_loop para_re s (q + 2) (q + 2) = map fst ps"
          "concat (map (\<lambda>(b, sep). b @ sep) ps) = drop (q + 2) s"
          "\<forall>(b, sep) \<in> set ps. sep = [] \<or> sep = [0x0A, 0x0A]"
        by auto
      have "sub s q (q + 2) = [0x0A, 0x0A]" using sub_two[of q s] e by simp
      moreover have "sub s q (q + 2) @ drop (q + 2) s = drop q s"
        by (intro sub_append_drop) simp
      moreover have "sub s p q @ drop q s = drop p s"
        using less.prems by (intro sub_append_drop)
      ultimately have "sub s p q @ [0x0A, 0x0A] @ drop (q + 2) s = drop p s" by simp
      with ps eq show ?thesis
        by (intro exI[of _ "(sub s p q, [0x0A, 0x0A]) # ps"]) simp
    qed
  qed
qed

lemma exec_at_para_re_Nil: "exec_at para_re [] 0 = None"
  by (cases "exec_at para_re [] 0") (auto dest: exec_at_para_re)

lemma js_split_para:
  "\<exists>ps. js_split para_re s = map fst ps \<and>
        concat (map (\<lambda>(b, sep). b @ sep) ps) = s \<and>
        (\<forall>(b, sep) \<in> set ps. sep = [] \<or> sep = [0x0A, 0x0A])"
proof (cases "s = []")
  case True
  then show ?thesis
    by (intro exI[of _ "[([], [])]"]) (simp add: js_split_def exec_at_para_re_Nil)
next
  case False
  with split_loop_para[of 0 0 s] show ?thesis by (simp add: js_split_def)
qed

lemma filter_trim_nonblank:
  "b \<in> set (filter (\<lambda>p. length (trim_on plain p) \<noteq> 0) xs) \<Longrightarrow> trim_on plain b \<noteq> []"
  by simp

lemma splitIntoSubblocks_total:
  assumes "1 \<le> maxLen"
  shows "splitIntoSubblocks text maxLen \<noteq> None"
proof (cases "length (js_split para_re text) = 1 \<and> int (length text) > maxLen")
  case True
  from chunk_loop_total[OF assms, of 0 "text" "[]"] True show ?thesis
    by (auto simp: splitIntoSubblocks_def Let_def)
next
  case False
  then show ?thesis by (auto simp: splitIntoSubblocks_def Let_def)
qed


text \<open>
  Claim C8, as amended. For \<open>maxLen \<ge> 1\<close> the function returns. Whenever it returns, every
  block is non-empty after trimming, and the blocks are the non-blank pieces of an exact
  cutting of the text: the text is the pieces in order, each followed by what the cut after
  it consumed (two newlines at a paragraph cut; the one newline or the one full stop at a
  window cut; nothing at a hard cut or at the end). Pieces that are empty or consist of
  white space are dropped, with their characters.
\<close>

theorem splitIntoSubblocks_pieces:
  "(1 \<le> maxLen \<longrightarrow> splitIntoSubblocks text maxLen \<noteq> None) \<and>
   (\<forall>blocks. splitIntoSubblocks text maxLen = Some blocks \<longrightarrow>
      (\<forall>b \<in> set blocks. trim_on plain b \<noteq> []) \<and>
      (\<exists>ps. concat (map (\<lambda>(b, sep). b @ sep) ps) = text \<and>
            (\<forall>(b, sep) \<in> set ps. sep = [] \<or> sep = [0x0A] \<or> sep = [0x2E] \<or> sep = [0x0A, 0x0A]) \<and>
            blocks = filter (\<lambda>b. trim_on plain b \<noteq> []) (map fst ps)))"
proof -
  let ?keep = "\<lambda>p. length (trim_on plain p) \<noteq> 0"
  let ?chunk = "length (js_split para_re text) = 1 \<and> int (length text) > maxLen"
  have pieces: "\<exists>ps. r = map fst ps \<and> concat (map (\<lambda>(b, sep). b @ sep) ps) = text \<and>
       (\<forall>(b, sep) \<in> set ps. sep = [] \<or> sep = [0x0A] \<or> sep = [0x2E] \<or> sep = [0x0A, 0x0A])"
    if r: "(if ?chunk then chunk_loop text maxLen 0 [] else Some (js_split para_re text)) = Some r" for r
  proof (cases ?chunk)
    case False
    with r have "r = js_split para_re text" by auto
    with js_split_para[of "text"] show ?thesis by fastforce
  next
    case True
    with r have cl: "chunk_loop text maxLen 0 [] = Some r" by simp
    show ?thesis
    proof (cases "1 \<le> maxLen")
      case True
      from chunk_loop_total[OF True, of 0 "text" "[]"] cl show ?thesis by fastforce
    next
      case False
      with cl chunk_loop_diverges[of maxLen "text" "[]"] have "text = []" by auto
      with cl have "r = []" by (subst (asm) chunk_loop.simps) simp
      with \<open>text = []\<close> show ?thesis by (intro exI[of _ "[]"]) simp
    qed
  qed
  note total = splitIntoSubblocks_total[of maxLen "text"]
  have part: "(\<forall>b \<in> set blocks. trim_on plain b \<noteq> []) \<and>
      (\<exists>ps. concat (map (\<lambda>(b, sep). b @ sep) ps) = text \<and>
            (\<forall>(b, sep) \<in> set ps. sep = [] \<or> sep = [0x0A] \<or> sep = [0x2E] \<or> sep = [0x0A, 0x0A]) \<and>
            blocks = filter (\<lambda>b. trim_on plain b \<noteq> []) (map fst ps))"
    if b: "splitIntoSubblocks text maxLen = Some blocks" for blocks
  proof -
    from b obtain r where
      r: "(if ?chunk then chunk_loop text maxLen 0 [] else Some (js_split para_re text)) = Some r"
      and blocks: "blocks = filter ?keep r"
      by (auto simp: splitIntoSubblocks_def Let_def)
    from pieces[OF r] blocks show ?thesis by auto
  qed
  from total part show ?thesis by blast
qed

text \<open>
  The reading of claim C8 against which its counterexample is stated: the concatenation of
  the blocks is the text with only separator characters (newline, full stop, space) removed.
\<close>

fun removes_only :: "(nat \<Rightarrow> bool) \<Rightarrow> jsstring \<Rightarrow> jsstring \<Rightarrow> bool" where
  "removes_only sepc [] ys = (ys = [])"
| "removes_only sepc (x # xs) [] = (sepc x \<and> removes_only sepc xs [])"
| "removes_only sepc (x # xs) (y # ys) =
     ((x = y \<and> removes_only sepc xs ys) \<or> (sepc x \<and> removes_only sepc xs (y # ys)))"

definition separator_char :: "nat \<Rightarrow> bool" where
  "separator_char c = (c = 0x0A \<or> c = 0x2E \<or> c = 0x20)"

definition spec_reconstructs :: "jsstring \<Rightarrow> jsstring list \<Rightarrow> bool" where
  "spec_reconstructs text blocks = removes_only separator_char text (concat blocks)"









text \<open>
  Claim C8 fails where a piece is blank: the tab before the paragraph boundary is neither in
  a block nor a separator.
\<close>

theorem blank_piece_dropped:
  "splitIntoSubblocks (0x09 # js ''\<newline>\<newline>A'') 1000 = Some [js ''A'']
   \<and> \<not> spec_reconstructs (0x09 # js ''\<newline>\<newline>A'') [js ''A'']"
  by code_simp

theorem splitIntoSubblocks_pieces_witness:
  "splitIntoSubblocks (js ''ab\<newline>cd. ef gh'') 4 = Some [js ''ab'', js ''cd'', js '' ef '', js ''gh'']
   \<and> trim_on plain (js '' ef '') \<noteq> []
   \<and> (\<exists>ps. concat (map (\<lambda>(b, sep). b @ sep) ps) = js ''ab\<newline>cd. ef gh'' \<and>
         [js ''ab'', js ''cd'', js '' ef '', js ''gh''] = filter (\<lambda>b. trim_on plain b \<noteq> []) (map fst ps))"
proof -
  have ev: "splitIntoSubblocks (js ''ab\<newline>cd. ef gh'') 4 = Some [js ''ab'', js ''cd'', js '' ef '', js ''gh'']"
    by code_simp
  from splitIntoSubblocks_pieces[of 4 "js ''ab\<newline>cd. ef gh''"] ev show ?thesis
    by auto
qed

section \<open>Replacing matches\<close>

text \<open>
  \<open>String.prototype.replace\<close> with a regular expression: all matches when the pattern is
  global, the first one otherwise; the result is assembled from the stretches of the string
  between the matches and the replacement of each match. The matches are found on the code
  units alone. A replacement is a template, in which \<open>Ref k\<close> stands for \<open>$k\<close> (the empty
  string when the group took no part), or a function of the match and its groups, where a
  group that took no part is \<open>undefined\<close> (\<open>None\<close>).
\<close>

datatype subst = Lit jsstring | Ref nat

datatype 'a replacer =
    Template "subst list"
  | Func "'a list \<Rightarrow> (nat \<Rightarrow> 'a list option) \<Rightarrow> 'a list"

definition group_of :: "'a list \<Rightarrow> captures \<Rightarrow> nat \<Rightarrow> 'a list option" where
  "group_of xs caps k = map_option (\<lambda>(a, b). sub xs a b) (caps k)"

definition expand :: "'a alphabet \<Rightarrow> 'a list \<Rightarrow> captures \<Rightarrow> subst list \<Rightarrow> 'a list" where
  "expand A xs caps tmpl =
     concat (map (\<lambda>p. case p of
                        Lit l \<Rightarrow> map (emit A) l
                      | Ref k \<Rightarrow> (case group_of xs caps k of None \<Rightarrow> [] | Some g \<Rightarrow> g)) tmpl)"

definition replacement :: "'a alphabet \<Rightarrow> 'a replacer \<Rightarrow> 'a list \<Rightarrow> nat \<times> mstate \<Rightarrow> 'a list" where
  "replacement A rp xs mt =
     (case mt of (q, e, caps) \<Rightarrow>
        (case rp of
           Template tmpl \<Rightarrow> expand A xs caps tmpl
         | Func f \<Rightarrow> f (sub xs q e) (group_of xs caps)))"

definition matches :: "js_regexp \<Rightarrow> jsstring \<Rightarrow> (nat \<times> mstate) list" where
  "matches re s =
     (if global re then all_matches re s 0
      else (case find_from re s 0 of None \<Rightarrow> [] | Some mt \<Rightarrow> [mt]))"

fun assemble :: "'a list \<Rightarrow> nat \<Rightarrow> ((nat \<times> mstate) \<times> 'a list) list \<Rightarrow> 'a list" where
  "assemble xs nxt [] = drop nxt xs"
| "assemble xs nxt (((q, e, caps), rep) # ms) =
     (if nxt \<le> q then sub xs nxt q @ rep @ assemble xs e ms
      else assemble xs nxt ms)"

definition replace_on :: "'a alphabet \<Rightarrow> js_regexp \<Rightarrow> 'a replacer \<Rightarrow> 'a list \<Rightarrow> 'a list" where
  "replace_on A re rp xs =
     assemble xs 0 (map (\<lambda>mt. (mt, replacement A rp xs mt)) (matches re (map (code_of A) xs)))"

section \<open>Writing patterns\<close>

definition ch :: "char \<Rightarrow> regex" where
  "ch c = Chr (of_char c)"

definition seqs :: "regex list \<Rightarrow> regex" where
  "seqs rs = foldr Seq rs Eps"

definition str :: "string \<Rightarrow> regex" where
  "str cs = seqs (map ch cs)"

definition one :: "char \<Rightarrow> nat \<times> nat" where
  "one c = (of_char c, of_char c)"

definition rng :: "char \<Rightarrow> char \<Rightarrow> nat \<times> nat" where
  "rng a b = (of_char a, of_char b)"

definition plus :: "regex \<Rightarrow> regex" where
  "plus r = Rep 1 None True r"

definition opt :: "regex \<Rightarrow> regex" where
  "opt r = Rep 0 (Some 1) True r"

definition dot :: regex where
  "dot = Cls True [(0x0A, 0x0A), (0x0D, 0x0D), (0x2028, 0x2029)]"

definition regexp :: "regex \<Rightarrow> string \<Rightarrow> js_regexp" where
  "regexp r fl = \<lparr> source = r, global = (CHR ''g'' \<in> set fl),
                    ignoreCase = (CHR ''i'' \<in> set fl), multiline = (CHR ''m'' \<in> set fl) \<rparr>"

definition dq :: nat where
  "dq = 0x22"

definition sq :: nat where
  "sq = 0x27"

section \<open>The text formatter\<close>

text \<open>\<open>escapeHTML\<close>: five global replacements, the ampersand first.\<close>

definition escapeHTML_on :: "'a alphabet \<Rightarrow> 'a list \<Rightarrow> 'a list" where
  "escapeHTML_on A text =
     replace_on A (regexp (Chr sq) ''g'') (Template [Lit (js ''&#39;'')])
       (replace_on A (regexp (Chr dq) ''g'') (Template [Lit (js ''&quot;'')])
         (replace_on A (regexp (ch CHR ''>'') ''g'') (Template [Lit (js ''&gt;'')])
           (replace_on A (regexp (ch CHR ''<'') ''g'') (Template [Lit (js ''&lt;'')])
             (replace_on A (regexp (ch CHR ''&'') ''g'') (Template [Lit (js ''&amp;'')]) text))))"

text \<open>
  \<open>cleanLink\<close>. Its three patterns are
  \<open>/(?:\/\.\.?)+$/u\<close>, \<open>/(?:[)"'\]}>\<dots>]+|[.,;:!?\<dots>]+|[\<dots>-]+)+$/u\<close> (the closing
  brackets and quotes with the two guillemets U+203A and U+00BB, the punctuation with the
  ellipsis U+2026, and the dashes U+2014, U+2013 and the hyphen) and \<open>/[\s\u00A0]+$/u\<close>.
  A value that is no string (\<open>None\<close>) gives the empty string.
\<close>

definition re_dot_segments :: js_regexp where
  "re_dot_segments =
     regexp (seqs [plus (seqs [ch CHR ''/'', ch CHR ''.'', opt (ch CHR ''.'')]), Eol]) ''u''"

definition re_trailing_junk :: js_regexp where
  "re_trailing_junk =
     regexp (seqs [plus (Alt (plus (Cls False [one CHR '')'', (dq, dq), (sq, sq), one CHR '']'',
                                                one CHR ''}'', one CHR ''>'', (0x203A, 0x203A), (0xBB, 0xBB)]))
                         (Alt (plus (Cls False [one CHR ''.'', one CHR '','', one CHR '';'', one CHR '':'',
                                                one CHR ''!'', one CHR ''?'', (0x2026, 0x2026)]))
                              (plus (Cls False [(0x2014, 0x2014), (0x2013, 0x2013), one CHR ''-''])))),
                   Eol]) ''u''"

definition re_trailing_space :: js_regexp where
  "re_trailing_space = regexp (seqs [plus (Cls False (space_ranges @ [(0xA0, 0xA0)])), Eol]) ''u''"

definition cleanLink_on :: "'a alphabet \<Rightarrow> 'a list option \<Rightarrow> 'a list" where
  "cleanLink_on A url =
     (case url of
        None \<Rightarrow> []
      | Some u \<Rightarrow>
          (let s = trim_on A u;
               s = replace_on A re_dot_segments (Template [Lit (js ''/'')]) s;
               s = replace_on A re_trailing_junk (Template []) s
           in replace_on A re_trailing_space (Template []) s))"

text \<open>
  The patterns of \<open>renderMarkdown\<close>, in the order of the source. \<open>\A\<close> is no anchor in a
  JavaScript pattern without the \<open>u\<close> flag: it is an identity escape and matches the letter
  \<open>A\<close>.
\<close>

definition email :: regex where
  "email = seqs [WordB,
                 plus (Cls False [rng CHR ''A'' CHR ''Z'', rng CHR ''a'' CHR ''z'', rng CHR ''0'' CHR ''9'',
                                  one CHR ''.'', one CHR ''_'', one CHR ''%'', one CHR ''+'', one CHR ''-'']),
                 ch CHR ''@'',
                 plus (Cls False [rng CHR ''A'' CHR ''Z'', rng CHR ''a'' CHR ''z'', rng CHR ''0'' CHR ''9'',
                                  one CHR ''.'', one CHR ''-'']),
                 ch CHR ''.'',
                 Rep 2 None True (Cls False [rng CHR ''A'' CHR ''Z'', rng CHR ''a'' CHR ''z'']),
                 WordB]"

definition re_mailto_link :: js_regexp where
  "re_mailto_link =
     regexp (seqs [ch CHR ''['', Grp 1 (plus (Cls True [one CHR '']''])), ch CHR '']'', ch CHR ''('',
                   str ''mailto:'', Grp 2 (plus (Cls True [one CHR '')''])), ch CHR '')'']) ''gi''"

definition re_doubled_email :: js_regexp where
  "re_doubled_email = regexp (seqs [Grp 1 email, Grp 2 (Rep 0 (Some 4) True dot), Backref 1]) ''g''"

definition md_link :: regex where
  "md_link = seqs [ch CHR ''['', Grp 1 (plus (Cls True [one CHR '']''])), ch CHR '']'', ch CHR ''('',
                   Grp 2 (seqs [str ''http'', opt (ch CHR ''s''), str ''://'',
                                plus (Cls True (space_ranges @ [one CHR '')'']))]),
                   ch CHR '')'']"

definition re_email :: js_regexp where
  "re_email = regexp (Grp 1 email) ''g''"

definition re_bold_star :: js_regexp where
  "re_bold_star =
     regexp (seqs [ch CHR ''*'', ch CHR ''*'', Grp 1 (Rep 0 None False dot), ch CHR ''*'', ch CHR ''*'']) ''g''"

definition re_bold_underscore :: js_regexp where
  "re_bold_underscore =
     regexp (seqs [ch CHR ''_'', ch CHR ''_'', Grp 1 (Rep 0 None False dot), ch CHR ''_'', ch CHR ''_'']) ''g''"

definition re_italic :: "char \<Rightarrow> js_regexp" where
  "re_italic c =
     regexp (seqs [Grp 1 (Alt (Cls False space_ranges) (ch CHR ''A'')), ch c, Look False (ch c),
                   Grp 2 (plus (Cls True [one c])), ch c]) ''g''"

definition re_bullet :: js_regexp where
  "re_bullet = regexp (seqs [Bol, ch CHR ''*'', ch CHR '' '', Grp 1 (Rep 0 None True dot), Eol]) ''gm''"

definition re_www :: js_regexp where
  "re_www =
     regexp (seqs [Grp 1 (Alt Bol (Cls False space_ranges)),
                   Grp 2 (seqs [str ''www'', ch CHR ''.'',
                                plus (Cls True (space_ranges @ [one CHR ''<'']))])]) ''g''"

definition re_bare_url :: js_regexp where
  "re_bare_url =
     regexp (seqs [Grp 1 (Alt Bol (Cls False space_ranges)),
                   Grp 2 (seqs [Grp 3 (seqs [str ''http'', opt (ch CHR ''s''), str ''://'']),
                                plus (Cls True (space_ranges @ [one CHR ''<'']))])]) ''g''"

text \<open>The templates and the two replacer functions.\<close>

definition link_template :: "subst list" where
  "link_template =
     [Lit (js ''<a href='' @ [dq]), Ref 2,
      Lit ([dq] @ js '' target='' @ [dq] @ js ''_blank'' @ [dq] @ js ''>''), Ref 1, Lit (js ''</a>'')]"

definition mailto_template :: "subst list" where
  "mailto_template =
     [Lit (js ''<a href='' @ [dq] @ js ''mailto:''), Ref 1, Lit ([dq] @ js ''>''), Ref 1, Lit (js ''</a>'')]"

definition operand :: "'a alphabet \<Rightarrow> 'a list option \<Rightarrow> 'a list" where
  "operand A v = (case v of None \<Rightarrow> map (emit A) (js ''undefined'') | Some x \<Rightarrow> x)"

definition auto_link :: "'a alphabet \<Rightarrow> string \<Rightarrow> 'a list \<Rightarrow> (nat \<Rightarrow> 'a list option) \<Rightarrow> 'a list" where
  "auto_link A scheme whole grp =
     (let space = grp 1;
          url = cleanLink_on A (grp 2)
      in operand A space @ map (emit A) (js ''<a href='' @ [dq] @ js scheme) @ url
         @ map (emit A) ([dq] @ js '' target='' @ [dq] @ js ''_blank'' @ [dq] @ js '' rel='' @ [dq]
                         @ js ''noopener noreferrer'' @ [dq] @ js ''>'')
         @ url @ map (emit A) (js ''  </a>''))"

definition renderMarkdown_on :: "'a alphabet \<Rightarrow> 'a list \<Rightarrow> 'a list" where
  "renderMarkdown_on A text =
     (let t = replace_on A re_mailto_link (Template [Ref 2]) text;
          t = replace_on A re_doubled_email (Template [Ref 1]) t;
          html = escapeHTML_on A t;
          html = replace_on A (regexp md_link ''gi'') (Template link_template) html;
          html = replace_on A re_email (Template mailto_template) html;
          html = replace_on A re_bold_star (Template [Lit (js ''<b>''), Ref 1, Lit (js ''</b>'')]) html;
          html = replace_on A re_bold_underscore (Template [Lit (js ''<b>''), Ref 1, Lit (js ''</b>'')]) html;
          html = replace_on A (re_italic CHR ''*'')
                   (Template [Ref 1, Lit (js ''<i>''), Ref 2, Lit (js ''</i>'')]) html;
          html = replace_on A (re_italic CHR ''_'')
                   (Template [Ref 1, Lit (js ''<i>''), Ref 2, Lit (js ''</i>'')]) html;
          html = replace_on A (regexp md_link ''g'') (Template link_template) html;
          html = replace_on A re_bullet (Template [Lit (js ''&bull; ''), Ref 1]) html;
          html = replace_on A re_www (Func (auto_link A ''http://'')) html;
          html = replace_on A re_bare_url (Func (auto_link A [])) html
      in replace_on A (regexp (Chr 0x0A) ''g'') (Template [Lit (js ''<br>'')]) html)"

definition escapeHTML :: "jsstring \<Rightarrow> jsstring" where
  "escapeHTML = escapeHTML_on plain"

definition cleanLink :: "jsstring option \<Rightarrow> jsstring" where
  "cleanLink = cleanLink_on plain"

definition renderMarkdown :: "jsstring \<Rightarrow> jsstring" where
  "renderMarkdown = renderMarkdown_on plain"

section \<open>Where the characters of the formatter's output come from\<close>





subsection \<open>Every output character is an input character or a generated one\<close>











subsection \<open>Replacing one character everywhere\<close>


lemma sub_Suc: "n \<le> i \<Longrightarrow> i < length xs \<Longrightarrow> sub xs n (Suc i) = sub xs n i @ [xs ! i]"
proof -
  assume a: "n \<le> i" "i < length xs"
  then have "Suc i - n = Suc (i - n)" by simp
  moreover have "i - n < length (drop n xs)" using a by simp
  moreover have "drop n xs ! (i - n) = xs ! i" using a by simp
  ultimately show ?thesis unfolding sub_def by (metis take_Suc_conv_app_nth)
qed



subsection \<open>After escaping, no special character is left from the input\<close>




subsection \<open>Forgetting the origins gives the formatter on plain strings\<close>




















text \<open>
  Claim C4. \<open>renderMarkdown("_a_ b")\<close> returns its input unchanged: the italic pattern
  \<open>/(\s|\A)_(?!_)([^_]+)_/g\<close> asks for a white-space character or the letter \<open>A\<close> before
  the underscore, and the start of the string is neither. \<open>renderMarkdown("_a_b_")\<close> is
  unchanged as well. After white space, or after a capital \<open>A\<close>, the pair is converted.
\<close>

theorem italic_at_start_of_string:
  "renderMarkdown (js ''_a_ b'') = js ''_a_ b'' \<and>
   renderMarkdown (js ''_a_b_'') = js ''_a_b_'' \<and>
   renderMarkdown (js '' _a_ b'') = js '' <i>a</i> b'' \<and>
   renderMarkdown (js ''A_a_ b'') = js ''A<i>a</i> b''"
  by code_simp

section \<open>The session, the page and the backend\<close>

text \<open>
  A JavaScript value as the client meets it: what \<open>JSON.parse\<close> returns, and
  \<open>undefined\<close> for a property that is not there. Numbers carry no arithmetic in the
  client; only whether one is zero matters (\<open>truthy\<close>).
\<close>

datatype jsval =
    JUndefined
  | JNull
  | JBool bool
  | JNum int
  | JStr jsstring
  | JArr "jsval list"
  | JObj "(jsstring \<times> jsval) list"

fun truthy :: "jsval \<Rightarrow> bool" where
  "truthy JUndefined = False"
| "truthy JNull = False"
| "truthy (JBool b) = b"
| "truthy (JNum n) = (n \<noteq> 0)"
| "truthy (JStr s) = (s \<noteq> [])"
| "truthy (JArr vs) = True"
| "truthy (JObj kvs) = True"

text \<open>
  What a call can end in besides a value: an exception (a rejected \<open>fetch\<close>, a body that
  is no JSON, a \<open>TypeError\<close>), or no return at all.
\<close>

datatype error = NetworkFailure | JsonSyntaxError | TypeError | Nontermination

datatype sender = User | Bot

record message =
  sender :: sender
  msg_text :: jsval

text \<open>
  \<open>state\<close> of \<open>chatbot.state.js\<close>. The fields that receive backend data hold any value;
  the others have the type of the values the client itself writes. \<open>waitStart\<close> and
  \<open>fallbackTimer\<close> are a number or \<open>null\<close> (\<open>None\<close>).
\<close>

record chat_state =
  chat_id :: jsval
  asked_info :: jsval
  data_var :: jsval
  chatStarted :: bool
  privacyAccepted :: bool
  final_message :: jsval
  chatMessages :: "message list"
  botIsTyping :: bool
  waitStart :: "int option"
  fallbackTimer :: "nat option"

definition initial_state :: chat_state where
  "initial_state = \<lparr> chat_id = JNull, asked_info = JNull, data_var = JNull, chatStarted = False,
      privacyAccepted = False, final_message = JNull, chatMessages = [], botIsTyping = True,
      waitStart = None, fallbackTimer = None \<rparr>"

text \<open>
  The object under the key \<open>chatbotState\<close> of the session storage, as \<open>JSON.parse\<close> gives
  it back: each key is there (\<open>Some\<close>) or not. Only \<open>saveChatbotSession\<close> writes the key, so
  a key that is there holds a value of its field's type. \<open>JSON.stringify\<close> leaves out a key
  whose value is \<open>undefined\<close>; the serialisation itself is not modelled
  (\<open>JSON.parse\<close> of \<open>JSON.stringify\<close> of a JSON value is taken to be that value).
\<close>

record stored =
  st_chat_id :: "jsval option"
  st_asked_info :: "jsval option"
  st_data_var :: "jsval option"
  st_chatStarted :: "bool option"
  st_privacyAccepted :: "bool option"
  st_final_message :: "jsval option"
  st_chatMessages :: "message list option"
  st_botIsTyping :: "bool option"
  st_waitStart :: "int option option"
  st_fallbackTimer :: "nat option option"

definition empty_stored :: stored where
  "empty_stored = \<lparr> st_chat_id = None, st_asked_info = None, st_data_var = None,
      st_chatStarted = None, st_privacyAccepted = None, st_final_message = None,
      st_chatMessages = None, st_botIsTyping = None, st_waitStart = None, st_fallbackTimer = None \<rparr>"

definition defined :: "jsval \<Rightarrow> jsval option" where
  "defined v = (if v = JUndefined then None else Some v)"

definition stringify :: "chat_state \<Rightarrow> stored" where
  "stringify s = \<lparr> st_chat_id = defined (chat_id s), st_asked_info = defined (asked_info s),
      st_data_var = defined (data_var s), st_chatStarted = Some (chatStarted s),
      st_privacyAccepted = Some (privacyAccepted s), st_final_message = defined (final_message s),
      st_chatMessages = Some (chatMessages s), st_botIsTyping = Some (botIsTyping s),
      st_waitStart = Some (waitStart s), st_fallbackTimer = Some (fallbackTimer s) \<rparr>"

definition or_else :: "'a option \<Rightarrow> 'a \<Rightarrow> 'a" where
  "or_else v d = (case v of None \<Rightarrow> d | Some x \<Rightarrow> x)"

text \<open>\<open>Object.assign(state, saved)\<close>: every key of \<open>saved\<close> overwrites the field.\<close>

definition assign :: "chat_state \<Rightarrow> stored \<Rightarrow> chat_state" where
  "assign s saved = \<lparr> chat_id = or_else (st_chat_id saved) (chat_id s),
      asked_info = or_else (st_asked_info saved) (asked_info s),
      data_var = or_else (st_data_var saved) (data_var s),
      chatStarted = or_else (st_chatStarted saved) (chatStarted s),
      privacyAccepted = or_else (st_privacyAccepted saved) (privacyAccepted s),
      final_message = or_else (st_final_message saved) (final_message s),
      chatMessages = or_else (st_chatMessages saved) (chatMessages s),
      botIsTyping = or_else (st_botIsTyping saved) (botIsTyping s),
      waitStart = or_else (st_waitStart saved) (waitStart s),
      fallbackTimer = or_else (st_fallbackTimer saved) (fallbackTimer s) \<rparr>"

text \<open>
  The backend answers the k-th \<open>fetch\<close> of the page with \<open>backend k\<close>: no response at all,
  or a status and a body that is JSON or not. \<open>requests\<close> is the log of the calls made.
  A request is the \<open>GET /chat/new\<close> or the \<open>POST /chat/<chat_id>\<close> with the three fields
  of its body.
\<close>

datatype body = NotJson | Json jsval

datatype fetch_result = NetworkDown | Response nat body

datatype request = NewChat | SendChat jsval jsval jsval jsstring

text \<open>
  What \<open>renderMessages\<close> leaves in \<open>#chatbot-messages\<close>: a user message, a block of a bot
  message with its HTML, or the waiting indicator (\<open>True\<close>: with a fallback phrase, whose
  random choice is not modelled).
\<close>

datatype dom_node = UserMsg jsval | BotBlock jsstring jsstring | Waiting bool

record world =
  state :: chat_state
  storage :: "stored option"
  requests :: "request list"
  backend :: "nat \<Rightarrow> fetch_result"
  clock :: int
  timers :: "nat list"
  next_timer :: nat
  input_value :: jsstring
  messages_dom :: "dom_node list"
  input_disabled :: bool

subsection \<open>Calls that may throw\<close>

type_synonym 'a action = "world \<Rightarrow> (error + 'a) \<times> world"

definition ret :: "'a \<Rightarrow> 'a action" where
  "ret v w = (Inr v, w)"

definition throw :: "error \<Rightarrow> 'a action" where
  "throw e w = (Inl e, w)"

definition bind :: "'a action \<Rightarrow> ('a \<Rightarrow> 'b action) \<Rightarrow> 'b action" where
  "bind f g w = (case f w of (Inl e, w') \<Rightarrow> (Inl e, w') | (Inr v, w') \<Rightarrow> g v w')"

definition and_then :: "'a action \<Rightarrow> 'b action \<Rightarrow> 'b action" where
  "and_then f g = bind f (\<lambda>_. g)"

text \<open>\<open>try { body } catch (e) { handler }\<close>: a call that does not return is not caught.\<close>

definition try_catch :: "'a action \<Rightarrow> 'a action \<Rightarrow> 'a action" where
  "try_catch body handler w =
     (case body w of
        (Inl Nontermination, w') \<Rightarrow> (Inl Nontermination, w')
      | (Inl e, w') \<Rightarrow> handler w'
      | (Inr v, w') \<Rightarrow> (Inr v, w'))"

definition modify :: "(chat_state \<Rightarrow> chat_state) \<Rightarrow> unit action" where
  "modify f w = (Inr (), w\<lparr>state := f (state w)\<rparr>)"

definition push :: "message \<Rightarrow> unit action" where
  "push msg = modify (\<lambda>s. s\<lparr>chatMessages := chatMessages s @ [msg]\<rparr>)"

text \<open>
  Reading a property: a \<open>TypeError\<close> on \<open>null\<close> and \<open>undefined\<close>; otherwise the value
  of the key on an object and \<open>undefined\<close> on anything else (the client reads only
  \<open>id\<close>, \<open>data\<close>, \<open>message\<close>, \<open>meta\<close> and \<open>final_message\<close>, which no string, number or
  array has).
\<close>

definition nullish :: "jsval \<Rightarrow> bool" where
  "nullish v = (v = JUndefined \<or> v = JNull)"

definition field :: "jsval \<Rightarrow> jsstring \<Rightarrow> jsval" where
  "field v k =
     (case v of
        JObj kvs \<Rightarrow> (case map_of kvs k of None \<Rightarrow> JUndefined | Some x \<Rightarrow> x)
      | _ \<Rightarrow> JUndefined)"

definition get_prop :: "jsval \<Rightarrow> jsstring \<Rightarrow> jsval action" where
  "get_prop v k = (if nullish v then throw TypeError else ret (field v k))"

definition fetch :: "request \<Rightarrow> body action" where
  "fetch req w =
     (let w' = w\<lparr>requests := requests w @ [req]\<rparr>
      in case backend w (length (requests w)) of
           NetworkDown \<Rightarrow> (Inl NetworkFailure, w')
         | Response status b \<Rightarrow> (Inr b, w'))"

definition json :: "body \<Rightarrow> jsval action" where
  "json b = (case b of NotJson \<Rightarrow> throw JsonSyntaxError | Json v \<Rightarrow> ret v)"

subsection \<open>Session store (\<open>chatbot.state.js\<close>)\<close>

definition saveChatbotSession :: "unit action" where
  "saveChatbotSession w = (Inr (), w\<lparr>storage := Some (stringify (state w))\<rparr>)"

definition loadChatbotSession :: "unit action" where
  "loadChatbotSession w =
     (let saved = (case storage w of None \<Rightarrow> empty_stored | Some st \<Rightarrow> st);
          s = assign (state w) saved;
          s = (if st_botIsTyping saved = None
               then s\<lparr>botIsTyping := (length (chatMessages s) = 0)\<rparr> else s)
      in (Inr (), w\<lparr>state := s\<rparr>))"

subsection \<open>Renderer (\<open>chatbot.dom.js\<close>)\<close>

text \<open>
  The loop over \<open>state.chatMessages\<close>. A bot_msg message is split with \<open>maxLen = 500\<close> and
  each block formatted; \<open>msg.text.split\<close> throws a \<open>TypeError\<close> when the text is no
  string, and the nodes appended so far stay in the page.
\<close>

fun render_nodes :: "message list \<Rightarrow> dom_node list \<Rightarrow> (error + unit) \<times> dom_node list" where
  "render_nodes [] acc = (Inr (), acc)"
| "render_nodes (msg # rest) acc =
     (if sender msg = User then render_nodes rest (acc @ [UserMsg (msg_text msg)])
      else (case msg_text msg of
              JStr t \<Rightarrow>
                (case splitIntoSubblocks t 500 of
                   None \<Rightarrow> (Inl Nontermination, acc)
                 | Some blocks \<Rightarrow>
                     render_nodes rest (acc @ map (\<lambda>block. BotBlock block (renderMarkdown block)) blocks))
            | _ \<Rightarrow> (Inl TypeError, acc)))"

definition falsy_time :: "int option \<Rightarrow> bool" where
  "falsy_time t = (t = None \<or> t = Some 0)"

definition indicator :: "world \<Rightarrow> world" where
  "indicator w =
     (let s = state w in
      if botIsTyping s then
        (let start = (if falsy_time (waitStart s) then clock w else or_else (waitStart s) 0)
         in w\<lparr>state := s\<lparr>waitStart := Some start\<rparr>, input_disabled := True,
              messages_dom := messages_dom w @ [Waiting (clock w - start > 8000)]\<rparr>)
      else w\<lparr>state := s\<lparr>waitStart := None\<rparr>, input_disabled := False\<rparr>)"

definition lockout :: "world \<Rightarrow> world" where
  "lockout w = (if truthy (final_message (state w)) then w\<lparr>input_disabled := True\<rparr> else w)"

definition renderMessages :: "unit action" where
  "renderMessages w =
     (case render_nodes (chatMessages (state w)) [] of
        (Inl e, nodes) \<Rightarrow> (Inl e, w\<lparr>messages_dom := nodes\<rparr>)
      | (Inr u, nodes) \<Rightarrow> saveChatbotSession (lockout (indicator (w\<lparr>messages_dom := nodes\<rparr>))))"

definition setTimeout :: "unit action" where
  "setTimeout w =
     (Inr (), w\<lparr>state := (state w)\<lparr>fallbackTimer := Some (next_timer w)\<rparr>,
                timers := timers w @ [next_timer w], next_timer := Suc (next_timer w)\<rparr>)"

definition clearTimeout :: "unit action" where
  "clearTimeout w =
     (Inr (), (case fallbackTimer (state w) of
                 None \<Rightarrow> w
               | Some t \<Rightarrow> w\<lparr>timers := removeAll t (timers w)\<rparr>))"

definition startTypingIndicator :: "unit action" where
  "startTypingIndicator =
     and_then (modify (\<lambda>s. s\<lparr>botIsTyping := True, waitStart := None\<rparr>))
       (and_then renderMessages setTimeout)"

definition stopTypingIndicator :: "unit action" where
  "stopTypingIndicator =
     and_then (modify (\<lambda>s. s\<lparr>botIsTyping := False\<rparr>))
       (and_then clearTimeout
         (and_then (modify (\<lambda>s. s\<lparr>waitStart := None\<rparr>)) renderMessages))"

text \<open>
  The deferred action armed by \<open>startTypingIndicator\<close>: it changes the page, never
  \<open>state\<close>. (When no indicator is in the page, \<open>querySelector\<close> gives \<open>null\<close> and the
  assignment throws.)
\<close>

definition fallbackTimer_fires :: "nat \<Rightarrow> unit action" where
  "fallbackTimer_fires t w =
     (if t \<in> set (timers w) then
        (let w' = w\<lparr>timers := removeAll t (timers w)\<rparr>
         in if botIsTyping (state w') then
              (if list_ex (\<lambda>n. case n of Waiting f \<Rightarrow> True | _ \<Rightarrow> False) (messages_dom w')
               then (Inr (), w'\<lparr>messages_dom := map (\<lambda>n. case n of Waiting f \<Rightarrow> Waiting True | n' \<Rightarrow> n')
                                                   (messages_dom w')\<rparr>)
               else (Inl TypeError, w'))
            else (Inr (), w'))
      else (Inr (), w))"

definition accept_privacy :: "unit action" where
  "accept_privacy = and_then (modify (\<lambda>s. s\<lparr>privacyAccepted := True\<rparr>)) renderMessages"

subsection \<open>Transport client (\<open>chatbot.api.js\<close>)\<close>

definition start_apology :: jsstring where
  "start_apology =
     js ''Es scheint, dass es gerade ein kleines Problem beim Start des Chats gibt. Ich versuche gerade, die Verbindung erneut herzustellen. Einen kleinen Moment bitte ''
     @ [0x2013] @ js '' wir sind gleich f'' @ [0xFC] @ js ''r Sie da. Vielen Dank f'' @ [0xFC]
     @ js ''r Ihre Geduld und Ihr Verst'' @ [0xE4] @ js ''ndnis.''"

definition send_apology :: jsstring where
  "send_apology =
     js ''Der Chat braucht gerade noch einen kleinen Moment, um zu starten. Ich versuche die Verbindung nochmal herzustellen ''
     @ [0x2013] @ js '' danke f'' @ [0xFC] @ js ''r Ihre Geduld, wir sind gleich f'' @ [0xFC]
     @ js ''r Sie da!''"

definition bot_msg :: "jsval \<Rightarrow> message" where
  "bot_msg v = \<lparr> sender = Bot, msg_text = v \<rparr>"

definition user_msg :: "jsstring \<Rightarrow> message" where
  "user_msg t = \<lparr> sender = User, msg_text = JStr t \<rparr>"

text \<open>
  \<open>startChat\<close> and \<open>sendChatMessage\<close> are each a \<open>try\<close> block and its \<open>catch\<close> block,
  named \<open>_attempt\<close> and \<open>_recover\<close> here. Neither reads the status of the response.
\<close>

definition startChat_attempt :: "bool action" where
  "startChat_attempt =
     bind (fetch NewChat) (\<lambda>resp.
     bind (json resp) (\<lambda>backend_result.
     bind (get_prop backend_result (js ''id'')) (\<lambda>id.
     and_then (modify (\<lambda>s. s\<lparr>chat_id := id\<rparr>))
    (bind (get_prop backend_result (js ''data'')) (\<lambda>data.
     and_then (modify (\<lambda>s. s\<lparr>data_var := data, chatStarted := True, waitStart := None\<rparr>))
    (bind (get_prop backend_result (js ''message'')) (\<lambda>message.
     and_then (if truthy message
               then and_then (push (bot_msg message))
                   (and_then (modify (\<lambda>s. s\<lparr>botIsTyping := False\<rparr>)) renderMessages)
               else ret ())
       (ret True))))))))"

definition startChat_recover :: "bool action" where
  "startChat_recover =
     and_then (push (bot_msg (JStr start_apology)))
    (and_then (modify (\<lambda>s. s\<lparr>botIsTyping := True\<rparr>))
    (and_then renderMessages (ret False)))"

definition startChat :: "bool action" where
  "startChat = try_catch startChat_attempt startChat_recover"

definition send_request :: "jsstring \<Rightarrow> world \<Rightarrow> request" where
  "send_request userEntry w =
     SendChat (chat_id (state w)) (asked_info (state w)) (data_var (state w)) userEntry"

definition sendChatMessage_attempt :: "jsstring \<Rightarrow> bool action" where
  "sendChatMessage_attempt userEntry =
     bind (\<lambda>w. fetch (send_request userEntry w) w) (\<lambda>resp.
     bind (json resp) (\<lambda>backend_result.
     bind (get_prop backend_result (js ''meta'')) (\<lambda>meta.
     bind (get_prop meta (js ''final_message'')) (\<lambda>fm.
     and_then (modify (\<lambda>s. s\<lparr>final_message := (if truthy fm then fm else JBool False)\<rparr>))
    (and_then stopTypingIndicator
    (bind (get_prop backend_result (js ''message'')) (\<lambda>message.
     and_then (push (bot_msg message))
    (and_then renderMessages
    (bind (get_prop backend_result (js ''id'')) (\<lambda>id.
     and_then (modify (\<lambda>s. s\<lparr>chat_id := id\<rparr>))
    (bind (get_prop backend_result (js ''data'')) (\<lambda>data.
     and_then (modify (\<lambda>s. s\<lparr>data_var := data\<rparr>))
       (ret True)))))))))))))"

definition sendChatMessage_recover :: "bool action" where
  "sendChatMessage_recover =
     and_then (push (bot_msg (JStr send_apology)))
    (and_then stopTypingIndicator
    (and_then renderMessages (ret False)))"

definition sendChatMessage :: "jsstring \<Rightarrow> bool action" where
  "sendChatMessage userEntry = try_catch (sendChatMessage_attempt userEntry) sendChatMessage_recover"

subsection \<open>Orchestrator (\<open>chatbot.js\<close>)\<close>

definition bootstrap_apology :: jsstring where
  "bootstrap_apology =
     js ''Entschuldigung, ich konnte leider keine Verbindung aufbauen. Bitte laden Sie die Seite neu und versuchen Sie es noch einmal.''"

definition not_connected :: jsstring where
  "not_connected = js ''Chatverbindung nicht hergestellt.''"

definition giveup_apology :: jsstring where
  "giveup_apology =
     js ''Es hat mit der Verbindung leider nicht ganz geklappt. Ein kurzes Neuladen der Seite hilft meistens ''
     @ [0xE2, 0x20AC, 0x201C] @ js '' bitte versuchen Sie es einmal.''"

text \<open>
  Three attempts, as the nested \<open>if (!success)\<close> of both handlers write them; the result is
  the last \<open>success\<close>.
\<close>

definition three_times :: "bool action \<Rightarrow> bool action" where
  "three_times attempt =
     bind attempt (\<lambda>success.
       if \<not> success then
         bind attempt (\<lambda>success.
           if \<not> success then attempt else ret success)
       else ret success)"

definition startNewChatIfNeeded :: "unit action" where
  "startNewChatIfNeeded w =
     (if chatStarted (state w) then (Inr (), w)
      else and_then renderMessages
            (bind (three_times startChat) (\<lambda>success.
             and_then (if \<not> success
                       then and_then (push (bot_msg (JStr bootstrap_apology))) renderMessages
                       else ret ())
               saveChatbotSession)) w)"

text \<open>
  The submit handler. A JavaScript handler returns nothing; the value here names the path
  taken: the entry was empty after trimming (\<open>Ignored\<close>), no \<open>chat_id\<close> (\<open>NotConnected\<close>), an
  attempt succeeded (\<open>Delivered\<close>), or all three failed (\<open>GaveUp\<close>).
\<close>

datatype flow_end = Ignored | NotConnected | Delivered | GaveUp

definition set_input :: "jsstring \<Rightarrow> unit action" where
  "set_input v w = (Inr (), w\<lparr>input_value := v\<rparr>)"

definition submit :: "flow_end action" where
  "submit w =
     (let userEntry = trim_on plain (input_value w) in
      if userEntry = [] then (Inr Ignored, w)
      else
        and_then (push (user_msg userEntry))
       (and_then renderMessages
       (and_then startTypingIndicator
       (and_then (set_input [])
         (\<lambda>w. if \<not> truthy (chat_id (state w))
              then and_then stopTypingIndicator
                  (and_then (push (bot_msg (JStr not_connected))) (ret NotConnected)) w
              else bind (three_times (sendChatMessage userEntry)) (\<lambda>success.
                   and_then (if \<not> success
                             then and_then (push (bot_msg (JStr giveup_apology))) renderMessages
                             else ret ())
                  (and_then saveChatbotSession (ret (if success then Delivered else GaveUp)))) w)))) w)"

text \<open>The Enter key submits when the trimmed input is not empty and the bot is not typing.\<close>

definition enter_key :: "unit action" where
  "enter_key w =
     (if trim_on plain (input_value w) \<noteq> [] \<and> \<not> botIsTyping (state w)
      then and_then submit (ret ()) w else (Inr (), w))"

subsection \<open>What can happen to the page\<close>

text \<open>
  The operations of the core and the events around them. An exception ends the handler it
  is thrown in and nothing else, so a run goes on with the next event. Each operation is
  taken as one step: what other handlers do while one waits for the network is a step of
  its own before or after.
\<close>

datatype event =
    Bootstrap
  | Submit
  | EnterKey
  | TypeInput jsstring
  | AcceptPrivacy
  | TimerFires nat
  | Tick int
  | CallStartChat
  | CallSendChatMessage jsstring
  | CallRenderMessages
  | CallStartTyping
  | CallStopTyping
  | CallSave

fun perform :: "event \<Rightarrow> world \<Rightarrow> world" where
  "perform Bootstrap w = snd (startNewChatIfNeeded w)"
| "perform Submit w = snd (submit w)"
| "perform EnterKey w = snd (enter_key w)"
| "perform (TypeInput v) w = snd (set_input v w)"
| "perform AcceptPrivacy w = snd (accept_privacy w)"
| "perform (TimerFires t) w = snd (fallbackTimer_fires t w)"
| "perform (Tick d) w = w\<lparr>clock := clock w + d\<rparr>"
| "perform CallStartChat w = snd (startChat w)"
| "perform (CallSendChatMessage userEntry) w = snd (sendChatMessage userEntry w)"
| "perform CallRenderMessages w = snd (renderMessages w)"
| "perform CallStartTyping w = snd (startTypingIndicator w)"
| "perform CallStopTyping w = snd (stopTypingIndicator w)"
| "perform CallSave w = snd (saveChatbotSession w)"

definition run :: "event list \<Rightarrow> world \<Rightarrow> world" where
  "run evs w = fold perform evs w"

section \<open>Facts about the operations\<close>

subsection \<open>Sequencing\<close>

lemma bind_split:
  "bind f g w = (case fst (f w) of Inl e \<Rightarrow> (Inl e, snd (f w)) | Inr v \<Rightarrow> g v (snd (f w)))"
  by (cases "f w") (auto simp: bind_def split: sum.splits)

lemma bind_ok: "fst (f w) = Inr v \<Longrightarrow> bind f g w = g v (snd (f w))"
  by (simp add: bind_split)

lemma bind_fails: "fst (f w) = Inl e \<Longrightarrow> bind f g w = (Inl e, snd (f w))"
  by (simp add: bind_split)

lemma and_then_ok: "fst (f w) = Inr v \<Longrightarrow> and_then f g w = g (snd (f w))"
  by (simp add: and_then_def bind_split)

lemma and_then_fails: "fst (f w) = Inl e \<Longrightarrow> and_then f g w = (Inl e, snd (f w))"
  by (simp add: and_then_def bind_split)

lemma try_catch_ok: "fst (f w) = Inr v \<Longrightarrow> try_catch f h w = (Inr v, snd (f w))"
  by (cases "f w") (auto simp: try_catch_def)

lemma try_catch_caught:
  "fst (f w) = Inl e \<Longrightarrow> e \<noteq> Nontermination \<Longrightarrow> try_catch f h w = h (snd (f w))"
  by (cases "f w"; cases e) (auto simp: try_catch_def)

lemma modify_apply [simp]:
  "fst (modify f w) = Inr ()" "snd (modify f w) = w\<lparr>state := f (state w)\<rparr>"
  by (simp_all add: modify_def)

lemma push_apply [simp]:
  "fst (push msg w) = Inr ()"
  "snd (push msg w) = w\<lparr>state := (state w)\<lparr>chatMessages := chatMessages (state w) @ [msg]\<rparr>\<rparr>"
  by (simp_all add: push_def)

lemma ret_apply [simp]: "fst (ret v w) = Inr v" "snd (ret v w) = w"
  by (simp_all add: ret_def)

subsection \<open>Rendering\<close>

fun is_string :: "jsval \<Rightarrow> bool" where
  "is_string (JStr t) = True"
| "is_string v = False"

text \<open>
  A message list that \<open>renderMessages\<close> can draw: the text of every bot_msg message is a
  string.
\<close>

definition renders :: "message list \<Rightarrow> bool" where
  "renders ms = list_all (\<lambda>msg. sender msg = User \<or> is_string (msg_text msg)) ms"

lemma message_parts [simp]:
  "sender (bot_msg v) = Bot" "msg_text (bot_msg v) = v"
  "sender (user_msg t) = User" "msg_text (user_msg t) = JStr t"
  by (simp_all add: bot_msg_def user_msg_def)

lemma renders_simps [simp]:
  "renders []"
  "renders (ms @ ms') = (renders ms \<and> renders ms')"
  "renders (msg # ms) = ((sender msg = User \<or> is_string (msg_text msg)) \<and> renders ms)"
  by (simp_all add: renders_def)

lemma render_nodes_ok: "renders ms \<Longrightarrow> fst (render_nodes ms acc) = Inr ()"
proof (induction ms arbitrary: acc)
  case Nil
  then show ?case by simp
next
  case (Cons msg ms)
  show ?case
  proof (cases "sender msg = User")
    case True
    with Cons show ?thesis by simp
  next
    case False
    with Cons.prems obtain t where t: "msg_text msg = JStr t"
      by (cases "msg_text msg") auto
    from splitIntoSubblocks_total[of 500 t] obtain blocks where
      "splitIntoSubblocks t 500 = Some blocks" by auto
    with False t Cons show ?thesis by simp
  qed
qed

lemma renderMessages_ok: "renders (chatMessages (state w)) \<Longrightarrow> fst (renderMessages w) = Inr ()"
proof -
  assume "renders (chatMessages (state w))"
  from render_nodes_ok[OF this, of "[]"] obtain nodes where
    "render_nodes (chatMessages (state w)) [] = (Inr (), nodes)"
    by (cases "render_nodes (chatMessages (state w)) []") auto
  then show ?thesis by (simp add: renderMessages_def saveChatbotSession_def)
qed

lemma renderMessages_frame [simp]:
  "chatMessages (state (snd (renderMessages w))) = chatMessages (state w)"
  "chat_id (state (snd (renderMessages w))) = chat_id (state w)"
  "asked_info (state (snd (renderMessages w))) = asked_info (state w)"
  "data_var (state (snd (renderMessages w))) = data_var (state w)"
  "chatStarted (state (snd (renderMessages w))) = chatStarted (state w)"
  "privacyAccepted (state (snd (renderMessages w))) = privacyAccepted (state w)"
  "final_message (state (snd (renderMessages w))) = final_message (state w)"
  "botIsTyping (state (snd (renderMessages w))) = botIsTyping (state w)"
  "fallbackTimer (state (snd (renderMessages w))) = fallbackTimer (state w)"
  "requests (snd (renderMessages w)) = requests w"
  "backend (snd (renderMessages w)) = backend w"
  "timers (snd (renderMessages w)) = timers w"
  "next_timer (snd (renderMessages w)) = next_timer w"
  "input_value (snd (renderMessages w)) = input_value w"
  "clock (snd (renderMessages w)) = clock w"
  by (cases "render_nodes (chatMessages (state w)) []";
      auto simp: renderMessages_def saveChatbotSession_def lockout_def indicator_def Let_def
           split: sum.splits)+

subsection \<open>The typing indicator\<close>

lemma stopTypingIndicator_eq:
  "stopTypingIndicator w =
     renderMessages ((snd (clearTimeout (w\<lparr>state := (state w)\<lparr>botIsTyping := False\<rparr>\<rparr>)))
                       \<lparr>state := (state w)\<lparr>botIsTyping := False, waitStart := None\<rparr>\<rparr>)"
  by (simp add: stopTypingIndicator_def and_then_def bind_split clearTimeout_def split: option.splits)

lemma stopTypingIndicator_ok:
  "renders (chatMessages (state w)) \<Longrightarrow> fst (stopTypingIndicator w) = Inr ()"
  by (simp add: stopTypingIndicator_eq renderMessages_ok)

lemma stopTypingIndicator_frame [simp]:
  "chatMessages (state (snd (stopTypingIndicator w))) = chatMessages (state w)"
  "chat_id (state (snd (stopTypingIndicator w))) = chat_id (state w)"
  "asked_info (state (snd (stopTypingIndicator w))) = asked_info (state w)"
  "data_var (state (snd (stopTypingIndicator w))) = data_var (state w)"
  "chatStarted (state (snd (stopTypingIndicator w))) = chatStarted (state w)"
  "privacyAccepted (state (snd (stopTypingIndicator w))) = privacyAccepted (state w)"
  "final_message (state (snd (stopTypingIndicator w))) = final_message (state w)"
  "botIsTyping (state (snd (stopTypingIndicator w))) = False"
  "fallbackTimer (state (snd (stopTypingIndicator w))) = fallbackTimer (state w)"
  "requests (snd (stopTypingIndicator w)) = requests w"
  "backend (snd (stopTypingIndicator w)) = backend w"
  "timers (snd (stopTypingIndicator w)) =
     (case fallbackTimer (state w) of None \<Rightarrow> timers w | Some t \<Rightarrow> removeAll t (timers w))"
  "next_timer (snd (stopTypingIndicator w)) = next_timer w"
  "input_value (snd (stopTypingIndicator w)) = input_value w"
  by (simp_all add: stopTypingIndicator_eq clearTimeout_def split: option.splits)

lemma startTypingIndicator_ok:
  "renders (chatMessages (state w)) \<Longrightarrow> fst (startTypingIndicator w) = Inr ()"
  by (simp add: startTypingIndicator_def and_then_def bind_split renderMessages_ok setTimeout_def)

lemma startTypingIndicator_frame [simp]:
  "chatMessages (state (snd (startTypingIndicator w))) = chatMessages (state w)"
  "chat_id (state (snd (startTypingIndicator w))) = chat_id (state w)"
  "asked_info (state (snd (startTypingIndicator w))) = asked_info (state w)"
  "data_var (state (snd (startTypingIndicator w))) = data_var (state w)"
  "chatStarted (state (snd (startTypingIndicator w))) = chatStarted (state w)"
  "privacyAccepted (state (snd (startTypingIndicator w))) = privacyAccepted (state w)"
  "final_message (state (snd (startTypingIndicator w))) = final_message (state w)"
  "botIsTyping (state (snd (startTypingIndicator w))) = True"
  "requests (snd (startTypingIndicator w)) = requests w"
  "backend (snd (startTypingIndicator w)) = backend w"
  "input_value (snd (startTypingIndicator w)) = input_value w"
  by (cases "fst (renderMessages (w\<lparr>state := (state w)\<lparr>botIsTyping := True, waitStart := None\<rparr>\<rparr>))";
      simp add: startTypingIndicator_def and_then_def bind_split setTimeout_def)+

lemma startTypingIndicator_timer:
  assumes "renders (chatMessages (state w))"
  shows "fallbackTimer (state (snd (startTypingIndicator w))) = Some (next_timer w)"
    and "timers (snd (startTypingIndicator w)) = timers w @ [next_timer w]"
    and "next_timer (snd (startTypingIndicator w)) = Suc (next_timer w)"
  using assms
  by (simp_all add: startTypingIndicator_def and_then_def bind_split renderMessages_ok setTimeout_def)

subsection \<open>The transport client\<close>

lemma fetch_apply [simp]:
  "fst (fetch req w) =
     (case backend w (length (requests w)) of
        NetworkDown \<Rightarrow> Inl NetworkFailure
      | Response status b \<Rightarrow> Inr b)"
  "snd (fetch req w) = w\<lparr>requests := requests w @ [req]\<rparr>"
  by (simp_all add: fetch_def Let_def split: fetch_result.splits)


definition send_fails :: "fetch_result \<Rightarrow> bool" where
  "send_fails r =
     (case r of
        NetworkDown \<Rightarrow> True
      | Response status b \<Rightarrow>
          (case b of NotJson \<Rightarrow> True | Json v \<Rightarrow> nullish v \<or> nullish (field v (js ''meta''))))"


lemma sendChatMessage_attempt_fails:
  assumes "send_fails (backend w (length (requests w)))"
  shows "\<exists>e. e \<noteq> Nontermination \<and>
           sendChatMessage_attempt u w = (Inl e, w\<lparr>requests := requests w @ [send_request u w]\<rparr>)"
proof (cases "backend w (length (requests w))")
  case NetworkDown
  then show ?thesis
    by (intro exI[of _ NetworkFailure]) (simp add: sendChatMessage_attempt_def bind_split)
next
  case (Response status b)
  show ?thesis
  proof (cases b)
    case NotJson
    with Response show ?thesis
      by (intro exI[of _ JsonSyntaxError])
         (simp add: sendChatMessage_attempt_def bind_split json_def throw_def)
  next
    case (Json v)
    with Response assms have "nullish v \<or> nullish (field v (js ''meta''))"
      by (simp add: send_fails_def)
    with Response Json show ?thesis
      by (intro exI[of _ TypeError])
         (auto simp: sendChatMessage_attempt_def bind_split json_def throw_def ret_def get_prop_def)
  qed
qed

lemma sendChatMessage_recover_run:
  assumes "renders (chatMessages (state w))"
  shows "fst (sendChatMessage_recover w) = Inr False"
    and "chatMessages (state (snd (sendChatMessage_recover w)))
           = chatMessages (state w) @ [bot_msg (JStr send_apology)]"
    and "botIsTyping (state (snd (sendChatMessage_recover w))) = False"
    and "chat_id (state (snd (sendChatMessage_recover w))) = chat_id (state w)"
    and "asked_info (state (snd (sendChatMessage_recover w))) = asked_info (state w)"
    and "data_var (state (snd (sendChatMessage_recover w))) = data_var (state w)"
    and "final_message (state (snd (sendChatMessage_recover w))) = final_message (state w)"
    and "chatStarted (state (snd (sendChatMessage_recover w))) = chatStarted (state w)"
    and "requests (snd (sendChatMessage_recover w)) = requests w"
    and "backend (snd (sendChatMessage_recover w)) = backend w"
  using assms
  by (simp_all add: sendChatMessage_recover_def and_then_def bind_split
        stopTypingIndicator_ok renderMessages_ok)

lemma sendChatMessage_fails:
  assumes "send_fails (backend w (length (requests w)))" and "renders (chatMessages (state w))"
  shows "fst (sendChatMessage u w) = Inr False"
    and "chatMessages (state (snd (sendChatMessage u w)))
           = chatMessages (state w) @ [bot_msg (JStr send_apology)]"
    and "botIsTyping (state (snd (sendChatMessage u w))) = False"
    and "chat_id (state (snd (sendChatMessage u w))) = chat_id (state w)"
    and "asked_info (state (snd (sendChatMessage u w))) = asked_info (state w)"
    and "data_var (state (snd (sendChatMessage u w))) = data_var (state w)"
    and "final_message (state (snd (sendChatMessage u w))) = final_message (state w)"
    and "chatStarted (state (snd (sendChatMessage u w))) = chatStarted (state w)"
    and "requests (snd (sendChatMessage u w)) = requests w @ [send_request u w]"
    and "backend (snd (sendChatMessage u w)) = backend w"
proof -
  from sendChatMessage_attempt_fails[OF assms(1), of u] obtain e where
    e: "e \<noteq> Nontermination"
    "sendChatMessage_attempt u w = (Inl e, w\<lparr>requests := requests w @ [send_request u w]\<rparr>)"
    by blast
  let ?w1 = "w\<lparr>requests := requests w @ [send_request u w]\<rparr>"
  have eq: "sendChatMessage u w = sendChatMessage_recover ?w1"
    unfolding sendChatMessage_def using try_catch_caught[of "sendChatMessage_attempt u" w e] e
    by simp
  have r: "renders (chatMessages (state ?w1))" using assms(2) by simp
  note rec = sendChatMessage_recover_run[OF r]
  show "fst (sendChatMessage u w) = Inr False" using rec(1) by (simp add: eq)
  show "chatMessages (state (snd (sendChatMessage u w)))
           = chatMessages (state w) @ [bot_msg (JStr send_apology)]" using rec(2) by (simp add: eq)
  show "botIsTyping (state (snd (sendChatMessage u w))) = False" using rec(3) by (simp add: eq)
  show "chat_id (state (snd (sendChatMessage u w))) = chat_id (state w)" using rec(4) by (simp add: eq)
  show "asked_info (state (snd (sendChatMessage u w))) = asked_info (state w)" using rec(5) by (simp add: eq)
  show "data_var (state (snd (sendChatMessage u w))) = data_var (state w)" using rec(6) by (simp add: eq)
  show "final_message (state (snd (sendChatMessage u w))) = final_message (state w)" using rec(7) by (simp add: eq)
  show "chatStarted (state (snd (sendChatMessage u w))) = chatStarted (state w)" using rec(8) by (simp add: eq)
  show "requests (snd (sendChatMessage u w)) = requests w @ [send_request u w]" using rec(9) by (simp add: eq)
  show "backend (snd (sendChatMessage u w)) = backend w" using rec(10) by (simp add: eq)
qed

lemma sendChatMessage_delivers:
  assumes "backend w (length (requests w)) = Response status (Json v)"
    and "\<not> nullish v" and "\<not> nullish (field v (js ''meta''))"
    and "is_string (field v (js ''message''))"
    and "renders (chatMessages (state w))"
  shows "fst (sendChatMessage u w) = Inr True"
    and "chatMessages (state (snd (sendChatMessage u w)))
           = chatMessages (state w) @ [bot_msg (field v (js ''message''))]"
    and "botIsTyping (state (snd (sendChatMessage u w))) = False"
    and "chat_id (state (snd (sendChatMessage u w))) = field v (js ''id'')"
    and "data_var (state (snd (sendChatMessage u w))) = field v (js ''data'')"
    and "asked_info (state (snd (sendChatMessage u w))) = asked_info (state w)"
    and "final_message (state (snd (sendChatMessage u w)))
           = (if truthy (field (field v (js ''meta'')) (js ''final_message''))
              then field (field v (js ''meta'')) (js ''final_message'') else JBool False)"
    and "requests (snd (sendChatMessage u w)) = requests w @ [send_request u w]"
    and "backend (snd (sendChatMessage u w)) = backend w"
proof -
  have att: "fst (sendChatMessage_attempt u w) = Inr True"
    using assms
    by (simp add: sendChatMessage_attempt_def bind_split and_then_def json_def get_prop_def ret_def
          stopTypingIndicator_ok renderMessages_ok)
  then have eq: "sendChatMessage u w = (Inr True, snd (sendChatMessage_attempt u w))"
    unfolding sendChatMessage_def by (rule try_catch_ok)
  show "fst (sendChatMessage u w) = Inr True" by (simp add: eq)
  show "chatMessages (state (snd (sendChatMessage u w)))
           = chatMessages (state w) @ [bot_msg (field v (js ''message''))]"
    "botIsTyping (state (snd (sendChatMessage u w))) = False"
    "chat_id (state (snd (sendChatMessage u w))) = field v (js ''id'')"
    "data_var (state (snd (sendChatMessage u w))) = field v (js ''data'')"
    "asked_info (state (snd (sendChatMessage u w))) = asked_info (state w)"
    "final_message (state (snd (sendChatMessage u w)))
           = (if truthy (field (field v (js ''meta'')) (js ''final_message''))
              then field (field v (js ''meta'')) (js ''final_message'') else JBool False)"
    "requests (snd (sendChatMessage u w)) = requests w @ [send_request u w]"
    "backend (snd (sendChatMessage u w)) = backend w"
    unfolding eq using assms
    by (simp_all add: sendChatMessage_attempt_def bind_split and_then_def json_def get_prop_def ret_def
          stopTypingIndicator_ok renderMessages_ok)
qed







subsection \<open>Three attempts\<close>

lemma three_times_all_fail:
  assumes "fst (a w) = Inr False"
    and "fst (a (snd (a w))) = Inr False"
    and "fst (a (snd (a (snd (a w))))) = Inr False"
  shows "three_times a w = (Inr False, snd (a (snd (a (snd (a w))))))"
  using assms by (simp add: three_times_def bind_split prod_eq_iff)

lemma three_times_third:
  assumes "fst (a w) = Inr False"
    and "fst (a (snd (a w))) = Inr False"
    and "fst (a (snd (a (snd (a w))))) = Inr True"
  shows "three_times a w = (Inr True, snd (a (snd (a (snd (a w))))))"
  using assms by (simp add: three_times_def bind_split prod_eq_iff)

subsection \<open>The submit handler\<close>

text \<open>
  The page as the handler leaves it before it looks at \<open>chat_id\<close>: the user message
  pushed and drawn, the typing indicator started, the input emptied.
\<close>

definition begun :: "world \<Rightarrow> world" where
  "begun w =
     (snd (startTypingIndicator (snd (renderMessages
        (snd (push (user_msg (trim_on plain (input_value w))) w))))))\<lparr>input_value := []\<rparr>"

lemma begun_frame [simp]:
  "chatMessages (state (begun w)) = chatMessages (state w) @ [user_msg (trim_on plain (input_value w))]"
  "chat_id (state (begun w)) = chat_id (state w)"
  "asked_info (state (begun w)) = asked_info (state w)"
  "data_var (state (begun w)) = data_var (state w)"
  "requests (begun w) = requests w"
  "backend (begun w) = backend w"
  by (simp_all add: begun_def)

lemma begun_timer:
  assumes "renders (chatMessages (state w))"
  shows "fallbackTimer (state (begun w)) = Some (next_timer w)"
    and "timers (begun w) = timers w @ [next_timer w]"
  using assms by (simp_all add: begun_def startTypingIndicator_timer)

lemma submit_begun:
  assumes "trim_on plain (input_value w) \<noteq> []" and "renders (chatMessages (state w))"
  shows "submit w =
     (if \<not> truthy (chat_id (state w))
      then and_then stopTypingIndicator
             (and_then (push (bot_msg (JStr not_connected))) (ret NotConnected)) (begun w)
      else bind (three_times (sendChatMessage (trim_on plain (input_value w)))) (\<lambda>success.
             and_then (if \<not> success
                       then and_then (push (bot_msg (JStr giveup_apology))) renderMessages
                       else ret ())
               (and_then saveChatbotSession (ret (if success then Delivered else GaveUp))))
             (begun w))"
  using assms
  by (simp add: submit_def Let_def and_then_def bind_split renderMessages_ok
        startTypingIndicator_ok set_input_def begun_def)

lemma submit_not_connected:
  assumes "trim_on plain (input_value w) \<noteq> []" and "\<not> truthy (chat_id (state w))"
    and "renders (chatMessages (state w))"
  shows "fst (submit w) = Inr NotConnected \<and>
         chatMessages (state (snd (submit w))) =
           chatMessages (state w) @ [user_msg (trim_on plain (input_value w)), bot_msg (JStr not_connected)] \<and>
         botIsTyping (state (snd (submit w))) = False \<and>
         next_timer w \<notin> set (timers (snd (submit w))) \<and>
         requests (snd (submit w)) = requests w"
proof -
  have r: "renders (chatMessages (state (begun w)))" using assms(3) by simp
  show ?thesis
    unfolding submit_begun[OF assms(1,3)] using assms(2) r begun_timer[OF assms(3)]
    by (simp add: and_then_def bind_split stopTypingIndicator_ok)
qed

lemma submit_ignored:
  "trim_on plain (input_value w) = [] \<Longrightarrow> submit w = (Inr Ignored, w)"
  by (simp add: submit_def)

lemma saveChatbotSession_apply [simp]:
  "fst (saveChatbotSession w) = Inr ()"
  "state (snd (saveChatbotSession w)) = state w"
  "requests (snd (saveChatbotSession w)) = requests w"
  "backend (snd (saveChatbotSession w)) = backend w"
  by (simp_all add: saveChatbotSession_def)

lemma submit_gives_up:
  assumes "trim_on plain (input_value w) \<noteq> []" and "truthy (chat_id (state w))"
    and "renders (chatMessages (state w))"
    and "send_fails (backend w (length (requests w)))"
    and "send_fails (backend w (length (requests w) + 1))"
    and "send_fails (backend w (length (requests w) + 2))"
  shows "fst (submit w) = Inr GaveUp \<and>
         requests (snd (submit w)) =
           requests w @ replicate 3 (send_request (trim_on plain (input_value w)) w) \<and>
         chatMessages (state (snd (submit w))) =
           chatMessages (state w) @ [user_msg (trim_on plain (input_value w)),
             bot_msg (JStr send_apology), bot_msg (JStr send_apology), bot_msg (JStr send_apology),
             bot_msg (JStr giveup_apology)]"
proof -
  define u where "u = trim_on plain (input_value w)"
  define w0 where "w0 = begun w"
  define w1 where "w1 = snd (sendChatMessage u w0)"
  define w2 where "w2 = snd (sendChatMessage u w1)"
  define w3 where "w3 = snd (sendChatMessage u w2)"
  have req: "send_request u w0 = send_request u w"
    by (simp add: send_request_def w0_def)
  have f0: "send_fails (backend w0 (length (requests w0)))" "renders (chatMessages (state w0))"
    using assms(3,4) by (simp_all add: w0_def)
  note s1 = sendChatMessage_fails[OF f0, of u, folded w1_def]
  have req1: "send_request u w1 = send_request u w"
    using s1 by (simp add: send_request_def w0_def)
  have f1: "send_fails (backend w1 (length (requests w1)))" "renders (chatMessages (state w1))"
    using assms(5) f0(2) s1 by (simp_all add: w0_def)
  note s2 = sendChatMessage_fails[OF f1, of u, folded w2_def]
  have req2: "send_request u w2 = send_request u w"
    using s1 s2 by (simp add: send_request_def w0_def)
  have f2: "send_fails (backend w2 (length (requests w2)))" "renders (chatMessages (state w2))"
    using assms(6) f1(2) s1 s2 by (simp_all add: w0_def)
  note s3 = sendChatMessage_fails[OF f2, of u, folded w3_def]
  have three: "three_times (sendChatMessage u) w0 = (Inr False, w3)"
    unfolding w3_def w2_def w1_def
    using s1(1) s2(1) s3(1) by (intro three_times_all_fail) (simp_all add: w1_def w2_def)
  have msgs: "chatMessages (state w3) = chatMessages (state w) @ [user_msg u,
      bot_msg (JStr send_apology), bot_msg (JStr send_apology), bot_msg (JStr send_apology)]"
    using s1(2) s2(2) s3(2) by (simp add: w0_def u_def)
  have reqs: "requests w3 = requests w @ replicate 3 (send_request u w)"
    using s1(9) s2(9) s3(9) req req1 req2
    by (simp add: w0_def numeral_3_eq_3)
  have r3: "renders (chatMessages (state w3))" using msgs assms(3) by simp
  have "submit w =
      bind (three_times (sendChatMessage u)) (\<lambda>success.
             and_then (if \<not> success
                       then and_then (push (bot_msg (JStr giveup_apology))) renderMessages
                       else ret ())
               (and_then saveChatbotSession (ret (if success then Delivered else GaveUp)))) w0"
    using submit_begun[OF assms(1,3)] assms(2) by (simp add: u_def w0_def)
  then show ?thesis
    using three msgs reqs r3
    by (simp add: bind_split and_then_def renderMessages_ok u_def)
qed

lemma submit_delivers_third:
  assumes "trim_on plain (input_value w) \<noteq> []" and "truthy (chat_id (state w))"
    and "renders (chatMessages (state w))"
    and "send_fails (backend w (length (requests w)))"
    and "send_fails (backend w (length (requests w) + 1))"
    and "backend w (length (requests w) + 2) = Response status (Json v)"
    and "\<not> nullish v" and "\<not> nullish (field v (js ''meta''))"
    and "is_string (field v (js ''message''))"
  shows "fst (submit w) = Inr Delivered \<and>
         requests (snd (submit w)) =
           requests w @ replicate 3 (send_request (trim_on plain (input_value w)) w) \<and>
         chatMessages (state (snd (submit w))) =
           chatMessages (state w) @ [user_msg (trim_on plain (input_value w)),
             bot_msg (JStr send_apology), bot_msg (JStr send_apology),
             bot_msg (field v (js ''message''))]"
proof -
  define u where "u = trim_on plain (input_value w)"
  define w0 where "w0 = begun w"
  define w1 where "w1 = snd (sendChatMessage u w0)"
  define w2 where "w2 = snd (sendChatMessage u w1)"
  define w3 where "w3 = snd (sendChatMessage u w2)"
  have req: "send_request u w0 = send_request u w"
    by (simp add: send_request_def w0_def)
  have f0: "send_fails (backend w0 (length (requests w0)))" "renders (chatMessages (state w0))"
    using assms(3,4) by (simp_all add: w0_def)
  note s1 = sendChatMessage_fails[OF f0, of u, folded w1_def]
  have req1: "send_request u w1 = send_request u w"
    using s1 by (simp add: send_request_def w0_def)
  have f1: "send_fails (backend w1 (length (requests w1)))" "renders (chatMessages (state w1))"
    using assms(5) f0(2) s1 by (simp_all add: w0_def)
  note s2 = sendChatMessage_fails[OF f1, of u, folded w2_def]
  have req2: "send_request u w2 = send_request u w"
    using s1 s2 by (simp add: send_request_def w0_def)
  have f2: "backend w2 (length (requests w2)) = Response status (Json v)"
    "renders (chatMessages (state w2))"
    using assms(6) f1(2) s1 s2 by (simp_all add: w0_def)
  note s3 = sendChatMessage_delivers[OF f2(1) assms(7,8,9) f2(2), of u, folded w3_def]
  have three: "three_times (sendChatMessage u) w0 = (Inr True, w3)"
    unfolding w3_def w2_def w1_def
    using s1(1) s2(1) s3(1) by (intro three_times_third) (simp_all add: w1_def w2_def)
  have msgs: "chatMessages (state w3) = chatMessages (state w) @ [user_msg u,
      bot_msg (JStr send_apology), bot_msg (JStr send_apology), bot_msg (field v (js ''message''))]"
    using s1(2) s2(2) s3(2) by (simp add: w0_def u_def)
  have reqs: "requests w3 = requests w @ replicate 3 (send_request u w)"
    using s1(9) s2(9) s3(8) req req1 req2
    by (simp add: w0_def numeral_3_eq_3)
  have "submit w =
      bind (three_times (sendChatMessage u)) (\<lambda>success.
             and_then (if \<not> success
                       then and_then (push (bot_msg (JStr giveup_apology))) renderMessages
                       else ret ())
               (and_then saveChatbotSession (ret (if success then Delivered else GaveUp)))) w0"
    using submit_begun[OF assms(1,3)] assms(2) by (simp add: u_def w0_def)
  then show ?thesis
    using three msgs reqs
    by (simp add: bind_split and_then_def u_def)
qed

section \<open>The claims about the transport client and the submit flow\<close>

text \<open>
  A page just loaded with nothing in the storage, and the same page after a conversation
  with the identifier \<open>c1\<close> has started.
\<close>

definition fresh_page :: "(nat \<Rightarrow> fetch_result) \<Rightarrow> jsstring \<Rightarrow> world" where
  "fresh_page answers typed =
     \<lparr> state = initial_state, storage = None, requests = [], backend = answers, clock = 0,
       timers = [], next_timer = 0, input_value = typed, messages_dom = [],
       input_disabled = False \<rparr>"

definition connected_page :: "(nat \<Rightarrow> fetch_result) \<Rightarrow> jsstring \<Rightarrow> world" where
  "connected_page answers typed =
     (fresh_page answers typed)\<lparr>state := initial_state\<lparr>chat_id := JStr (js ''c1''), chatStarted := True\<rparr>\<rparr>"

definition reply :: "jsstring \<Rightarrow> jsval" where
  "reply t = JObj [(js ''id'', JStr (js ''c1'')), (js ''data'', JNum 7), (js ''message'', JStr t),
                   (js ''meta'', JObj [])]"

lemma trim_Hallo: "trim_on plain (js ''Hallo'') = js ''Hallo''"
  by code_simp

lemma trim_blank: "trim_on plain (js '' '') = []"
  by code_simp

lemma reply_fields:
  "\<not> nullish (reply t)" "\<not> nullish (field (reply t) (js ''meta''))"
  "field (reply t) (js ''message'') = JStr t" "field (reply t) (js ''id'') = JStr (js ''c1'')"
  "field (reply t) (js ''data'') = JNum 7"
  by (simp_all add: reply_def nullish_def field_def js_def)




text \<open>
  Claim C5 fails in its count of apologies: each failed \<open>sendChatMessage\<close> appends its own
  apology in its \<open>catch\<close> block, so with a backend that never answers the flow appends four
  bot messages, the give-up apology last.
\<close>

theorem four_apologies:
  "fst (submit (connected_page (\<lambda>k. NetworkDown) (js ''Hallo''))) = Inr GaveUp \<and>
   chatMessages (state (snd (submit (connected_page (\<lambda>k. NetworkDown) (js ''Hallo''))))) =
     [user_msg (js ''Hallo''), bot_msg (JStr send_apology), bot_msg (JStr send_apology),
      bot_msg (JStr send_apology), bot_msg (JStr giveup_apology)] \<and>
   length (filter (\<lambda>msg. sender msg = Bot)
     (chatMessages (state (snd (submit (connected_page (\<lambda>k. NetworkDown) (js ''Hallo''))))))) = 4"
proof -
  let ?w = "connected_page (\<lambda>k. NetworkDown) (js ''Hallo'')"
  have h1: "trim_on plain (input_value ?w) \<noteq> []"
    by (simp add: connected_page_def fresh_page_def trim_Hallo) (simp add: js_def)
  have h2: "truthy (chat_id (state ?w))"
    by (simp add: connected_page_def fresh_page_def initial_state_def js_def)
  have h3: "renders (chatMessages (state ?w))"
    by (simp add: connected_page_def fresh_page_def initial_state_def)
  have h4: "send_fails (backend ?w k)" for k
    by (simp add: connected_page_def fresh_page_def send_fails_def)
  have i: "input_value ?w = js ''Hallo''" "chatMessages (state ?w) = []"
    by (simp_all add: connected_page_def fresh_page_def initial_state_def)
  from submit_gives_up[OF h1 h2 h3 h4 h4 h4] show ?thesis
    by (simp add: i trim_Hallo)
qed

text \<open>
  Claim C5, as amended. The entry is not empty after trimming, a \<open>chat_id\<close> is there, and
  every bot message of the session is a string. If the first two attempts fail and the
  third fails too, the flow ends in \<open>GaveUp\<close> after exactly three requests, each with the
  same body, and has appended the user message, one connectivity apology per attempt and
  then the give-up apology once. If the third attempt gets a reply with a readable
  \<open>meta\<close> and a string \<open>message\<close>, the flow ends in \<open>Delivered\<close> after exactly three
  requests and has appended the user message, two connectivity apologies and the reply.
\<close>

theorem three_attempts:
  assumes "trim_on plain (input_value w) \<noteq> []" and "truthy (chat_id (state w))"
    and "renders (chatMessages (state w))"
    and "send_fails (backend w (length (requests w)))"
    and "send_fails (backend w (length (requests w) + 1))"
  shows
    "(send_fails (backend w (length (requests w) + 2)) \<longrightarrow>
        fst (submit w) = Inr GaveUp \<and>
        requests (snd (submit w)) =
          requests w @ replicate 3 (send_request (trim_on plain (input_value w)) w) \<and>
        chatMessages (state (snd (submit w))) =
          chatMessages (state w) @ [user_msg (trim_on plain (input_value w)),
            bot_msg (JStr send_apology), bot_msg (JStr send_apology), bot_msg (JStr send_apology),
            bot_msg (JStr giveup_apology)]) \<and>
     (backend w (length (requests w) + 2) = Response status (Json v) \<and> \<not> nullish v \<and>
        \<not> nullish (field v (js ''meta'')) \<and> is_string (field v (js ''message'')) \<longrightarrow>
        fst (submit w) = Inr Delivered \<and>
        requests (snd (submit w)) =
          requests w @ replicate 3 (send_request (trim_on plain (input_value w)) w) \<and>
        chatMessages (state (snd (submit w))) =
          chatMessages (state w) @ [user_msg (trim_on plain (input_value w)),
            bot_msg (JStr send_apology), bot_msg (JStr send_apology),
            bot_msg (field v (js ''message''))])"
proof (intro conjI impI)
  assume third: "send_fails (backend w (length (requests w) + 2))"
  note g = submit_gives_up[OF assms third]
  show "fst (submit w) = Inr GaveUp" using g by blast
  show "requests (snd (submit w)) =
          requests w @ replicate 3 (send_request (trim_on plain (input_value w)) w)" using g by blast
  show "chatMessages (state (snd (submit w))) =
          chatMessages (state w) @ [user_msg (trim_on plain (input_value w)),
            bot_msg (JStr send_apology), bot_msg (JStr send_apology), bot_msg (JStr send_apology),
            bot_msg (JStr giveup_apology)]" using g by blast
next
  assume third: "backend w (length (requests w) + 2) = Response status (Json v) \<and> \<not> nullish v \<and>
        \<not> nullish (field v (js ''meta'')) \<and> is_string (field v (js ''message''))"
  then have h: "backend w (length (requests w) + 2) = Response status (Json v)" "\<not> nullish v"
    "\<not> nullish (field v (js ''meta''))" "is_string (field v (js ''message''))" by blast+
  note g = submit_delivers_third[OF assms h]
  show "fst (submit w) = Inr Delivered" using g by blast
  show "requests (snd (submit w)) =
          requests w @ replicate 3 (send_request (trim_on plain (input_value w)) w)" using g by blast
  show "chatMessages (state (snd (submit w))) =
          chatMessages (state w) @ [user_msg (trim_on plain (input_value w)),
            bot_msg (JStr send_apology), bot_msg (JStr send_apology),
            bot_msg (field v (js ''message''))]" using g by blast
qed

definition third_time :: "nat \<Rightarrow> fetch_result" where
  "third_time k = (if k < 2 then NetworkDown else Response 200 (Json (reply (js ''Guten Tag''))))"

theorem three_attempts_witness:
  "fst (submit (connected_page third_time (js ''Hallo''))) = Inr Delivered \<and>
   length (requests (snd (submit (connected_page third_time (js ''Hallo''))))) = 3 \<and>
   chatMessages (state (snd (submit (connected_page third_time (js ''Hallo''))))) =
     [user_msg (js ''Hallo''), bot_msg (JStr send_apology), bot_msg (JStr send_apology),
      bot_msg (JStr (js ''Guten Tag''))] \<and>
   fst (submit (connected_page (\<lambda>k. Response 503 NotJson) (js ''Hallo''))) = Inr GaveUp \<and>
   length (requests (snd (submit (connected_page (\<lambda>k. Response 503 NotJson) (js ''Hallo''))))) = 3"
proof -
  let ?w = "connected_page third_time (js ''Hallo'')"
  let ?x = "connected_page (\<lambda>k. Response 503 NotJson) (js ''Hallo'')"
  have h1: "trim_on plain (input_value ?w) \<noteq> []" "trim_on plain (input_value ?x) \<noteq> []"
    by (simp_all add: connected_page_def fresh_page_def trim_Hallo) (simp_all add: js_def)
  have h2: "truthy (chat_id (state ?w))" "truthy (chat_id (state ?x))"
    by (simp_all add: connected_page_def fresh_page_def initial_state_def js_def)
  have h3: "renders (chatMessages (state ?w))" "renders (chatMessages (state ?x))"
    by (simp_all add: connected_page_def fresh_page_def initial_state_def)
  have h4: "send_fails (backend ?w (length (requests ?w)))"
    "send_fails (backend ?w (length (requests ?w) + 1))"
    by (simp_all add: connected_page_def fresh_page_def send_fails_def third_time_def)
  have h5: "send_fails (backend ?x k)" for k
    by (simp add: connected_page_def fresh_page_def send_fails_def)
  have h6: "backend ?w (length (requests ?w) + 2) = Response 200 (Json (reply (js ''Guten Tag''))) \<and>
      \<not> nullish (reply (js ''Guten Tag'')) \<and>
      \<not> nullish (field (reply (js ''Guten Tag'')) (js ''meta'')) \<and>
      is_string (field (reply (js ''Guten Tag'')) (js ''message''))"
    by (simp add: connected_page_def fresh_page_def third_time_def reply_fields)
  have i: "input_value ?w = js ''Hallo''" "chatMessages (state ?w) = []" "requests ?w = []"
    "input_value ?x = js ''Hallo''" "chatMessages (state ?x) = []" "requests ?x = []"
    by (simp_all add: connected_page_def fresh_page_def initial_state_def)
  from three_attempts[OF h1(1) h2(1) h3(1) h4, where status = 200 and v = "reply (js ''Guten Tag'')",
         THEN conjunct2, rule_format, OF h6]
       three_attempts[OF h1(2) h2(2) h3(2) h5 h5, THEN conjunct1, rule_format, OF h5]
  show ?thesis
    by (simp add: i trim_Hallo reply_fields)
qed

text \<open>
  Claim C6 fails for an entry of white space only: the handler trims the entry and
  returns when nothing is left, so nothing is appended.
\<close>

theorem blank_entry_ignored:
  "input_value (fresh_page (\<lambda>k. NetworkDown) (js '' '')) \<noteq> [] \<and>
   chat_id (state (fresh_page (\<lambda>k. NetworkDown) (js '' ''))) = JNull \<and>
   fst (submit (fresh_page (\<lambda>k. NetworkDown) (js '' ''))) = Inr Ignored \<and>
   chatMessages (state (snd (submit (fresh_page (\<lambda>k. NetworkDown) (js '' ''))))) = []"
proof -
  let ?w = "fresh_page (\<lambda>k. NetworkDown) (js '' '')"
  have "trim_on plain (input_value ?w) = []" by (simp add: fresh_page_def trim_blank)
  from submit_ignored[OF this] show ?thesis
    by (simp add: fresh_page_def initial_state_def js_def)
qed

text \<open>
  Claim C6, as amended. For every entry that is not empty after trimming, in a session
  whose bot messages are all strings: when \<open>chat_id\<close> is \<open>null\<close> (or any other falsy value)
  the flow appends the user message with the trimmed entry and the bot message
  \<open>Chatverbindung nicht hergestellt.\<close>, leaves the typing flag off and the timer it armed
  cancelled, and makes no request.
\<close>

theorem submit_without_chat_id:
  assumes "trim_on plain (input_value w) \<noteq> []" and "\<not> truthy (chat_id (state w))"
    and "renders (chatMessages (state w))"
  shows "fst (submit w) = Inr NotConnected \<and>
         chatMessages (state (snd (submit w))) =
           chatMessages (state w) @ [user_msg (trim_on plain (input_value w)), bot_msg (JStr not_connected)] \<and>
         botIsTyping (state (snd (submit w))) = False \<and>
         next_timer w \<notin> set (timers (snd (submit w))) \<and>
         requests (snd (submit w)) = requests w"
  using assms by (rule submit_not_connected)

theorem submit_without_chat_id_witness:
  "fst (submit (fresh_page (\<lambda>k. NetworkDown) (js ''Hallo''))) = Inr NotConnected \<and>
   chatMessages (state (snd (submit (fresh_page (\<lambda>k. NetworkDown) (js ''Hallo''))))) =
     [user_msg (js ''Hallo''), bot_msg (JStr (js ''Chatverbindung nicht hergestellt.''))] \<and>
   requests (snd (submit (fresh_page (\<lambda>k. NetworkDown) (js ''Hallo'')))) = []"
proof -
  let ?w = "fresh_page (\<lambda>k. NetworkDown) (js ''Hallo'')"
  have h1: "trim_on plain (input_value ?w) \<noteq> []"
    by (simp add: fresh_page_def trim_Hallo) (simp add: js_def)
  have h2: "\<not> truthy (chat_id (state ?w))" by (simp add: fresh_page_def initial_state_def)
  have h3: "renders (chatMessages (state ?w))" by (simp add: fresh_page_def initial_state_def)
  have i: "input_value ?w = js ''Hallo''" "chatMessages (state ?w) = []" "requests ?w = []"
    by (simp_all add: fresh_page_def initial_state_def)
  from submit_without_chat_id[OF h1 h2 h3] show ?thesis
    by (simp add: i trim_Hallo not_connected_def)
qed

end
